theory Spec2Isabelle
  imports Complex_Main
begin

text \<open>
  The registration backend of Empresario, in its two versions: the Express server
  with its in-memory store of one-time codes (send, verify, register), and the
  Apps Script that keeps the codes in a spreadsheet (\<^verbatim>\<open>sendOTP\<close>,
  \<^verbatim>\<open>verifyOTP\<close>, \<^verbatim>\<open>register\<close>). Every handler is a function of the request,
  of what it reads from outside (clock, random numbers, the outcome of the mail and
  spreadsheet calls) and of the state it works on, and returns its answer with the
  state afterwards.
\<close>

section \<open>The Express server: configuration and the in-memory OTP store\<close>

text \<open>
  The five settings the server reads from its environment with \<^verbatim>\<open>parseInt\<close>
  (\<^verbatim>\<open>otpLength\<close>, \<^verbatim>\<open>otpTtlSeconds\<close>, \<^verbatim>\<open>rateWindowSeconds\<close>,
  \<^verbatim>\<open>rateMaxPerWindow\<close>, \<^verbatim>\<open>minResendIntervalSeconds\<close>). They are integers here;
  an environment value that \<^verbatim>\<open>parseInt\<close> turns into NaN is outside this model.
  Times are epoch milliseconds as \<^verbatim>\<open>Date.now()\<close> returns them, modelled as
  unbounded integers (every value the server computes stays far below \<open>2 ^ 53\<close>).
\<close>

record config =
  otpLength :: int
  otpTtlSeconds :: int
  rateWindowSeconds :: int
  rateMaxPerWindow :: int
  minResendIntervalSeconds :: int

text \<open>The values the server falls back to when the environment sets none.\<close>

definition default_config :: config where
  "default_config =
     \<lparr> otpLength = 6, otpTtlSeconds = 600, rateWindowSeconds = 900,
       rateMaxPerWindow = 5, minResendIntervalSeconds = 60 \<rparr>"

text \<open>
  One value of \<^verbatim>\<open>otpStore\<close>. The field \<^verbatim>\<open>code\<close> is a string or \<^verbatim>\<open>null\<close>
  (\<open>None\<close>).
\<close>

record otp_entry =
  code :: "string option"
  expiresAt :: int
  lastSentAt :: int
  windowStartAt :: int
  sentCountInWindow :: int

type_synonym otp_store = "string \<rightharpoonup> otp_entry"

subsection \<open>\<^verbatim>\<open>generateOtp\<close>\<close>

definition digits :: string where
  "digits = ''0123456789''"

text \<open>
  \<^verbatim>\<open>digits[d]\<close> appended to a string: the character at index \<open>d\<close>, and the text
  \<^verbatim>\<open>undefined\<close> for an index outside the string, as JavaScript's \<^verbatim>\<open>+=\<close> does.
\<close>

definition digit_at :: "nat \<Rightarrow> string" where
  "digit_at d = (if d < length digits then [digits ! d] else ''undefined'')"

text \<open>
  The loop of \<^verbatim>\<open>generateOtp\<close>. The random source \<open>rnd\<close> gives, for the \<open>i\<close>-th
  iteration, the value of \<^verbatim>\<open>Math.floor(Math.random() * 10)\<close>. \<^verbatim>\<open>Math.random()\<close> lies
  in \<open>[0, 1)\<close>, so a real run has \<open>rnd i < 10\<close>.
\<close>

function generateOtp_loop :: "(nat \<Rightarrow> nat) \<Rightarrow> int \<Rightarrow> nat \<Rightarrow> string \<Rightarrow> string" where
  "generateOtp_loop rnd len i otp =
     (if int i < len then generateOtp_loop rnd len (Suc i) (otp @ digit_at (rnd i)) else otp)"
  by pat_completeness auto
termination
  by (relation "measure (\<lambda>(rnd, len, i, otp). nat (len - int i))") auto

definition generateOtp :: "int \<Rightarrow> (nat \<Rightarrow> nat) \<Rightarrow> string" where
  "generateOtp len rnd = generateOtp_loop rnd len 0 []"

subsection \<open>The e-mail check of \<^verbatim>\<open>/api/otp/send\<close>\<close>

text \<open>
  The class \<^verbatim>\<open>\s\<close> on the code units below 256: tab, line feed, vertical tab,
  form feed, carriage return, space and the no-break space.
\<close>

definition is_space :: "char \<Rightarrow> bool" where
  "is_space c = (of_char c \<in> {9, 10, 11, 12, 13, 32, 160 :: nat})"

text \<open>The class \<^verbatim>\<open>[^@\s]\<close>.\<close>

definition not_at_space :: "char \<Rightarrow> bool" where
  "not_at_space c = (c \<noteq> CHR ''@'' \<and> \<not> is_space c)"

text \<open>
  \<^verbatim>\<open>/^[^@\s]+@[^@\s]+\.[^@\s]+$/.test(email)\<close>: a non-empty local part of class
  characters, one \<^verbatim>\<open>@\<close>, and a rest of class characters that has a dot with at
  least one character on each side.
\<close>

definition email_regex :: "string \<Rightarrow> bool" where
  "email_regex email =
     (let local = takeWhile not_at_space email; rest = dropWhile not_at_space email
      in local \<noteq> [] \<and>
         (case rest of
            [] \<Rightarrow> False
          | x # host \<Rightarrow> x = CHR ''@'' \<and> list_all not_at_space host \<and>
              list_ex (\<lambda>i. host ! i = CHR ''.'') [1 ..< length host - 1]))"

subsection \<open>Number to string\<close>

text \<open>
  The decimal text JavaScript gives an integer in a template literal or with
  \<^verbatim>\<open>toString()\<close>.
\<close>

fun decimal :: "nat \<Rightarrow> string" where
  "decimal n = (if n div 10 = 0 then [] else decimal (n div 10)) @ [digits ! (n mod 10)]"

definition number_text :: "int \<Rightarrow> string" where
  "number_text i = (if 0 \<le> i then decimal (nat i) else CHR ''-'' # decimal (nat (- i)))"

subsection \<open>\<^verbatim>\<open>POST /api/otp/send\<close>\<close>

datatype send_response =
  SendOk            \<comment> \<open>200 \<^verbatim>\<open>{ ok: true }\<close>\<close>
| InvalidEmail      \<comment> \<open>400 \<^verbatim>\<open>Invalid email\<close>\<close>
| RateLimited       \<comment> \<open>429 \<^verbatim>\<open>Too many OTP requests. Try later.\<close>\<close>
| TooSoon           \<comment> \<open>429 \<^verbatim>\<open>Please wait before requesting another OTP.\<close>\<close>
| SendFailed        \<comment> \<open>500 \<^verbatim>\<open>Failed to send OTP\<close>\<close>

text \<open>The argument of \<^verbatim>\<open>sendEmail\<close>.\<close>

record mail =
  mail_to :: string
  mail_subject :: string
  mail_text :: string
  mail_html :: string

definition otp_mail :: "config \<Rightarrow> string \<Rightarrow> string \<Rightarrow> mail" where
  "otp_mail cfg email c =
     \<lparr> mail_to = email,
       mail_subject = ''Your Empresario verification code'',
       mail_text = ''Your verification code is '' @ c @ ''. It expires in ''
                   @ number_text (otpTtlSeconds cfg div 60) @ '' minutes.'',
       mail_html = ''<p>Your verification code is <b>'' @ c @ ''</b>.</p><p>It expires in ''
                   @ number_text (otpTtlSeconds cfg div 60) @ '' minutes.</p>'' \<rparr>"

text \<open>The entry the handler starts from when the store has none for the address.\<close>

definition fresh_entry :: "int \<Rightarrow> otp_entry" where
  "fresh_entry now =
     \<lparr> code = None, expiresAt = 0, lastSentAt = 0, windowStartAt = now, sentCountInWindow = 0 \<rparr>"

text \<open>\<^verbatim>\<open>// Reset window if elapsed\<close>\<close>

definition reset_window :: "config \<Rightarrow> int \<Rightarrow> otp_entry \<Rightarrow> otp_entry" where
  "reset_window cfg now entry =
     (if now - windowStartAt entry > rateWindowSeconds cfg * 1000
      then entry\<lparr> windowStartAt := now, sentCountInWindow := 0 \<rparr>
      else entry)"

text \<open>
  The entry the handler works on after its window test: the stored one, or a fresh
  one for an address the store does not know.
\<close>

definition send_entry :: "config \<Rightarrow> string \<Rightarrow> int \<Rightarrow> otp_store \<Rightarrow> otp_entry" where
  "send_entry cfg email now store =
     reset_window cfg now (case store email of Some e \<Rightarrow> e | None \<Rightarrow> fresh_entry now)"

text \<open>
  The handler. \<open>now\<close> is \<^verbatim>\<open>Date.now()\<close>, \<open>rnd\<close> the random source and \<open>mail_ok\<close>
  says whether \<^verbatim>\<open>await sendEmail(...)\<close> returns (\<open>True\<close>) or throws. The result is
  the response, the store afterwards and the message handed to \<^verbatim>\<open>sendEmail\<close>, if
  the handler got that far.

  \<^verbatim>\<open>otpStore.get(email)\<close> returns the stored object itself, so the window reset
  changes the stored entry at once, also when the request is then refused; the
  object made for an unknown address reaches the store only at
  \<^verbatim>\<open>otpStore.set\<close>.
\<close>

definition otp_send ::
  "config \<Rightarrow> string \<Rightarrow> int \<Rightarrow> (nat \<Rightarrow> nat) \<Rightarrow> bool \<Rightarrow> otp_store
     \<Rightarrow> send_response \<times> otp_store \<times> mail option" where
  "otp_send cfg email now rnd mail_ok store =
     (if email = [] \<or> \<not> email_regex email then (InvalidEmail, store, None)
      else
        let entry = send_entry cfg email now store;
            store1 = (case store email of Some e \<Rightarrow> store(email \<mapsto> entry) | None \<Rightarrow> store)
        in if sentCountInWindow entry \<ge> rateMaxPerWindow cfg then (RateLimited, store1, None)
           else if now - lastSentAt entry < minResendIntervalSeconds cfg * 1000
           then (TooSoon, store1, None)
           else
             let c = generateOtp (otpLength cfg) rnd;
                 entry2 = entry\<lparr> code := Some c,
                                 expiresAt := now + otpTtlSeconds cfg * 1000,
                                 lastSentAt := now,
                                 sentCountInWindow := sentCountInWindow entry + 1 \<rparr>
             in (if mail_ok then SendOk else SendFailed,
                 store(email \<mapsto> entry2), Some (otp_mail cfg email c)))"

subsection \<open>\<^verbatim>\<open>POST /api/otp/verify\<close>\<close>

datatype verify_response =
  VerifyOk          \<comment> \<open>200 \<^verbatim>\<open>{ ok: true }\<close>\<close>
| InvalidInput      \<comment> \<open>400 \<^verbatim>\<open>email and otp required\<close>\<close>
| NotFound          \<comment> \<open>400 \<^verbatim>\<open>OTP not found. Request a new one.\<close>\<close>
| Expired           \<comment> \<open>400 \<^verbatim>\<open>OTP expired. Request a new one.\<close>\<close>
| Mismatch          \<comment> \<open>400 \<^verbatim>\<open>Invalid OTP\<close>\<close>

text \<open>
  \<^verbatim>\<open>!entry.code\<close> holds for \<^verbatim>\<open>null\<close> and for the empty string. The address and
  the candidate are strings, so \<^verbatim>\<open>String(otp) !== String(entry.code)\<close> is string
  inequality.
\<close>

definition otp_verify ::
  "string \<Rightarrow> string \<Rightarrow> int \<Rightarrow> otp_store \<Rightarrow> verify_response \<times> otp_store" where
  "otp_verify email otp now store =
     (if email = [] \<or> otp = [] then (InvalidInput, store)
      else case store email of
        None \<Rightarrow> (NotFound, store)
      | Some entry \<Rightarrow>
          (case code entry of
             None \<Rightarrow> (NotFound, store)
           | Some c \<Rightarrow>
               if c = [] then (NotFound, store)
               else if now > expiresAt entry then (Expired, store)
               else if otp \<noteq> c then (Mismatch, store)
               else (VerifyOk, store(email \<mapsto> entry\<lparr> code := None \<rparr>))))"

subsection \<open>Sequences of requests\<close>

text \<open>
  The requests the two OTP endpoints receive, with everything a handler reads from
  outside (the clock, the random source, the outcome of \<^verbatim>\<open>sendEmail\<close>) as
  arguments. The server starts with \<^verbatim>\<open>new Map()\<close>, the empty store.
\<close>

datatype event =
  Send string int "nat \<Rightarrow> nat" bool
| Verify string string int

fun step :: "config \<Rightarrow> event \<Rightarrow> otp_store \<Rightarrow> otp_store" where
  "step cfg (Send email now rnd mail_ok) store = fst (snd (otp_send cfg email now rnd mail_ok store))"
| "step cfg (Verify email otp now) store = snd (otp_verify email otp now store)"

fun run :: "config \<Rightarrow> event list \<Rightarrow> otp_store \<Rightarrow> otp_store" where
  "run cfg [] store = store"
| "run cfg (ev # evs) store = run cfg evs (step cfg ev store)"

text \<open>Is the request a call of \<^verbatim>\<open>/api/otp/send\<close> for this address?\<close>

fun sends_to :: "string \<Rightarrow> event \<Rightarrow> bool" where
  "sends_to email (Send e now rnd mail_ok) = (e = email)"
| "sends_to email (Verify e otp now) = False"

text \<open>
  The code a request stores for an address and the time it stores it at, if it
  stores one: a send request for that address that reaches \<^verbatim>\<open>otpStore.set\<close>,
  that is, one that hands a message to \<^verbatim>\<open>sendEmail\<close>.
\<close>

fun issued :: "config \<Rightarrow> string \<Rightarrow> event \<Rightarrow> otp_store \<Rightarrow> (string \<times> int) option" where
  "issued cfg email (Send e now rnd mail_ok) store =
     (if e = email \<and> snd (snd (otp_send cfg e now rnd mail_ok store)) \<noteq> None
      then Some (generateOtp (otpLength cfg) rnd, now) else None)"
| "issued cfg email (Verify e otp now) store = None"

text \<open>
  The code most recently issued for an address in a sequence of requests, with
  the time of that issuance; \<open>acc\<close> is the answer for the requests already seen.
\<close>

fun last_issued ::
  "config \<Rightarrow> string \<Rightarrow> event list \<Rightarrow> otp_store \<Rightarrow> (string \<times> int) option \<Rightarrow> (string \<times> int) option" where
  "last_issued cfg email [] store acc = acc"
| "last_issued cfg email (ev # evs) store acc =
     last_issued cfg email evs (step cfg ev store)
       (case issued cfg email ev store of Some ct \<Rightarrow> Some ct | None \<Rightarrow> acc)"

text \<open>Is the request a call of \<^verbatim>\<open>/api/otp/verify\<close> for this address with this candidate?\<close>

fun verifies :: "string \<Rightarrow> string \<Rightarrow> event \<Rightarrow> bool" where
  "verifies email c (Send e now rnd mail_ok) = False"
| "verifies email c (Verify e otp now) = (e = email \<and> otp = c)"

text \<open>
  The number of send requests for an address that were answered \<^verbatim>\<open>{ ok: true }\<close>
  since its rate window last started. \<open>tally\<close> is one request's effect on that
  number: a send request with a well-formed address starts a window when the store
  has no entry for it or the handler's \<^verbatim>\<open>// Reset window if elapsed\<close> test holds.
\<close>

fun tally :: "config \<Rightarrow> string \<Rightarrow> event \<Rightarrow> otp_store \<Rightarrow> int \<Rightarrow> int" where
  "tally cfg email (Send e now rnd mail_ok) store g =
     (if e \<noteq> email \<or> email = [] \<or> \<not> email_regex email then g
      else (case store email of
              None \<Rightarrow> 0
            | Some entry \<Rightarrow>
                if now - windowStartAt entry > rateWindowSeconds cfg * 1000 then 0 else g)
           + (if fst (otp_send cfg e now rnd mail_ok store) = SendOk then 1 else 0))"
| "tally cfg email (Verify e otp now) store g = g"

fun ok_in_window :: "config \<Rightarrow> string \<Rightarrow> event list \<Rightarrow> otp_store \<Rightarrow> int \<Rightarrow> int" where
  "ok_in_window cfg email [] store g = g"
| "ok_in_window cfg email (ev # evs) store g =
     ok_in_window cfg email evs (step cfg ev store) (tally cfg email ev store g)"

subsection \<open>\<^verbatim>\<open>POST /api/register\<close>\<close>

text \<open>
  The request body is a JSON object whose values are strings: a list of distinct
  keys with their values, in the order of the object. \<^verbatim>\<open>body.k || ''\<close> is the
  value of \<open>k\<close>, and the empty string when the object has no such key.
\<close>

type_synonym payload = "(string \<times> string) list"

definition field :: "payload \<Rightarrow> string \<Rightarrow> string" where
  "field body k = (case map_of body k of None \<Rightarrow> [] | Some v \<Rightarrow> if v = [] then [] else v)"

datatype register_response =
  RegisterOk        \<comment> \<open>200 \<^verbatim>\<open>{ ok: true }\<close>\<close>
| NotConfigured     \<comment> \<open>500 \<^verbatim>\<open>SPREADSHEET_ID not configured\<close>\<close>
| EmailRequired     \<comment> \<open>400 \<^verbatim>\<open>email required\<close>\<close>
| SaveFailed        \<comment> \<open>500 \<^verbatim>\<open>Failed to save registration\<close>\<close>

text \<open>
  The row the handler builds. \<open>timestamp\<close> is \<^verbatim>\<open>new Date().toISOString()\<close> and
  \<open>stringify\<close> is the runtime's \<^verbatim>\<open>JSON.stringify\<close>.
\<close>

definition register_row :: "(payload \<Rightarrow> string) \<Rightarrow> string \<Rightarrow> payload \<Rightarrow> string list" where
  "register_row stringify timestamp body =
     [timestamp,
      field body ''email'',
      field body ''fullName'',
      field body ''secondaryEmail'',
      field body ''phone'',
      field body ''organization'',
      field body ''city'',
      field body ''startupName'',
      field body ''website'',
      field body ''industry'',
      field body ''socialImpact'',
      field body ''iitkgpAffiliation'',
      field body ''aiMlCore'',
      field body ''tis'',
      field body ''problem'',
      field body ''solution'',
      field body ''market'',
      field body ''traction'',
      field body ''revenue'',
      field body ''extra'',
      stringify body]"

text \<open>
  The handler. \<open>spreadsheetId\<close> is \<^verbatim>\<open>process.env.SPREADSHEET_ID\<close> (\<open>None\<close> when
  unset), \<open>rows\<close> the rows of the sheet and \<open>store_ok\<close> says whether
  \<^verbatim>\<open>getSheetsClient()\<close> and \<^verbatim>\<open>values.append\<close> return (\<open>True\<close>) or one of them
  throws.
\<close>

definition api_register ::
  "string option \<Rightarrow> (payload \<Rightarrow> string) \<Rightarrow> string \<Rightarrow> bool \<Rightarrow> payload \<Rightarrow> string list list
     \<Rightarrow> register_response \<times> string list list" where
  "api_register spreadsheetId stringify timestamp store_ok body rows =
     (if spreadsheetId = None \<or> spreadsheetId = Some [] then (NotConfigured, rows)
      else if map_of body ''email'' = None \<or> map_of body ''email'' = Some [] then (EmailRequired, rows)
      else if store_ok then (RegisterOk, rows @ [register_row stringify timestamp body])
      else (SaveFailed, rows))"

section \<open>The Apps Script backend\<close>

text \<open>
  \<^verbatim>\<open>app_script.js\<close> keeps the codes in the sheet \<^verbatim>\<open>OTPs\<close>: a header row and one
  row (address, code, time) per issued code. A sheet is the list of its rows, and
  \<open>None\<close> when \<^verbatim>\<open>getSheetByName\<close> returns \<^verbatim>\<open>null\<close>.
\<close>

datatype sheet_row =
  HeaderRow                       \<comment> \<open>\<^verbatim>\<open>["Email", "OTP", "Timestamp"]\<close>\<close>
| OtpRow string nat int           \<comment> \<open>\<^verbatim>\<open>[email, otp, new Date()]\<close>\<close>

type_synonym otp_sheet = "sheet_row list option"

datatype sendOTP_response =
  OtpSent                 \<comment> \<open>\<^verbatim>\<open>OTP sent\<close>\<close>
| EmailIsRequired         \<comment> \<open>\<^verbatim>\<open>Email is required\<close>\<close>
| ErrorSendingOtp         \<comment> \<open>\<^verbatim>\<open>Error sending OTP: ...\<close>\<close>

text \<open>
  \<^verbatim>\<open>Math.floor(100000 + Math.random() * 900000)\<close>, where \<open>r\<close> is
  \<^verbatim>\<open>Math.floor(Math.random() * 900000)\<close>; a real run has \<open>r < 900000\<close>.
\<close>

definition sendOTP_code :: "nat \<Rightarrow> nat" where
  "sendOTP_code r = 100000 + r"

definition sendOTP_body :: "nat \<Rightarrow> string" where
  "sendOTP_body otp =
     ''Your OTP for Empresario Registration is: '' @ decimal otp
     @ [CHR 0x0A, CHR 0x0A] @ ''This OTP is valid for 10 minutes.''
     @ [CHR 0x0A, CHR 0x0A] @ ''Team Empresario'' @ [CHR 0x0A] @ ''E-Cell IIT Kharagpur''"

text \<open>
  \<^verbatim>\<open>sendOTP\<close>. \<open>email\<close> is \<^verbatim>\<open>e.parameter.email\<close> (\<open>None\<close> when the request has
  none), \<open>mail_ok\<close> says whether \<^verbatim>\<open>MailApp.sendEmail\<close> returns. The result is the
  text answered, the sheet afterwards and the address and body handed to
  \<^verbatim>\<open>MailApp.sendEmail\<close>. When the sheet does not exist it is created with its
  header, and \<^verbatim>\<open>sheet.appendRow\<close> then throws on the \<^verbatim>\<open>null\<close> still held in
  \<^verbatim>\<open>sheet\<close>.
\<close>

definition sendOTP ::
  "string option \<Rightarrow> nat \<Rightarrow> int \<Rightarrow> bool \<Rightarrow> otp_sheet
     \<Rightarrow> sendOTP_response \<times> otp_sheet \<times> (string \<times> string) option" where
  "sendOTP email r now mail_ok sheet =
     (case email of
        None \<Rightarrow> (EmailIsRequired, sheet, None)
      | Some addr \<Rightarrow>
          if addr = [] then (EmailIsRequired, sheet, None)
          else
            let otp = sendOTP_code r in
            case sheet of
              None \<Rightarrow> (ErrorSendingOtp, Some [HeaderRow], None)
            | Some data \<Rightarrow>
                (if mail_ok then OtpSent else ErrorSendingOtp,
                 Some (data @ [OtpRow addr otp now]),
                 Some (addr, sendOTP_body otp)))"

datatype verifyOTP_response =
  OtpValid                \<comment> \<open>\<^verbatim>\<open>OTP valid\<close>\<close>
| OtpExpired              \<comment> \<open>\<^verbatim>\<open>OTP expired\<close>\<close>
| InvalidOtp              \<comment> \<open>\<^verbatim>\<open>Invalid OTP\<close>\<close>
| EmailAndOtpRequired     \<comment> \<open>\<^verbatim>\<open>Email and OTP are required\<close>\<close>

text \<open>
  The test of one row: \<open>None\<close> when the row does not match and the loop goes on,
  the answer otherwise. A header row read as data matches the address
  \<^verbatim>\<open>Email\<close> and the code \<^verbatim>\<open>OTP\<close>; its time is an invalid date, so that
  \<^verbatim>\<open>timeDiff <= 10\<close> is false.
\<close>

fun verifyOTP_row :: "string \<Rightarrow> string \<Rightarrow> int \<Rightarrow> sheet_row \<Rightarrow> verifyOTP_response option" where
  "verifyOTP_row email otp now (OtpRow rowEmail rowOTP timestamp) =
     (if rowEmail = email \<and> decimal rowOTP = otp
      then (if real_of_int (now - timestamp) / (1000 * 60) \<le> 10 then Some OtpValid else Some OtpExpired)
      else None)"
| "verifyOTP_row email otp now HeaderRow =
     (if ''Email'' = email \<and> ''OTP'' = otp then Some OtpExpired else None)"

text \<open>\<^verbatim>\<open>for (let i = data.length - 1; i >= 1; i--)\<close>, entered with index \<open>i\<close>.\<close>

fun verifyOTP_loop :: "string \<Rightarrow> string \<Rightarrow> int \<Rightarrow> sheet_row list \<Rightarrow> nat \<Rightarrow> verifyOTP_response" where
  "verifyOTP_loop email otp now data 0 = InvalidOtp"
| "verifyOTP_loop email otp now data (Suc i) =
     (case verifyOTP_row email otp now (data ! Suc i) of
        Some answer \<Rightarrow> answer
      | None \<Rightarrow> verifyOTP_loop email otp now data i)"

text \<open>\<^verbatim>\<open>verifyOTP\<close>; it reads the sheet and writes nothing.\<close>

definition verifyOTP :: "string option \<Rightarrow> string option \<Rightarrow> int \<Rightarrow> otp_sheet \<Rightarrow> verifyOTP_response" where
  "verifyOTP email otp now sheet =
     (case (email, otp) of
        (Some addr, Some cand) \<Rightarrow>
          if addr = [] \<or> cand = [] then EmailAndOtpRequired
          else (case sheet of
                  None \<Rightarrow> InvalidOtp
                | Some data \<Rightarrow> verifyOTP_loop addr cand now data (length data - 1))
      | _ \<Rightarrow> EmailAndOtpRequired)"

subsection \<open>\<^verbatim>\<open>register\<close>\<close>

datatype cell = Text string | Date int

text \<open>\<^verbatim>\<open>e.parameter.k || ""\<close>\<close>

definition parameter :: "(string \<rightharpoonup> string) \<Rightarrow> string \<Rightarrow> cell" where
  "parameter e k = Text (case e k of None \<Rightarrow> [] | Some v \<Rightarrow> if v = [] then [] else v)"

definition register_headers :: "cell list" where
  "register_headers = map Text
     [''Email'', ''Password'', ''Full Name'', ''Personal Email'', ''Phone'', ''Organization'', ''City'',
      ''Startup Name'', ''Website'', ''Industry'', ''Social Impact'', ''IITKGP Affiliation'', ''AI/ML Core'',
      ''TIS'', ''Problem'', ''Solution'', ''Market'', ''Traction'', ''Revenue'', ''Extra'', ''Submitted At'',
      ''Timestamp'']"

definition rowData :: "(string \<rightharpoonup> string) \<Rightarrow> int \<Rightarrow> cell list" where
  "rowData e now =
     [parameter e ''email'',
      parameter e ''password'',
      parameter e ''fullName'',
      parameter e ''personalEmail'',
      parameter e ''phone'',
      parameter e ''organization'',
      parameter e ''city'',
      parameter e ''startupName'',
      parameter e ''website'',
      parameter e ''industry'',
      parameter e ''socialImpact'',
      parameter e ''iitkgpAffiliation'',
      parameter e ''aiMlCore'',
      parameter e ''tis'',
      parameter e ''problem'',
      parameter e ''solution'',
      parameter e ''market'',
      parameter e ''traction'',
      parameter e ''revenue'',
      parameter e ''extra'',
      parameter e ''submittedAt'',
      Date now]"

datatype register_answer =
  AnswerOk                \<comment> \<open>\<^verbatim>\<open>OK\<close>\<close>
| RegistrationFailed      \<comment> \<open>\<^verbatim>\<open>Registration failed: ...\<close>\<close>

text \<open>
  \<^verbatim>\<open>register\<close>. \<open>e\<close> is \<^verbatim>\<open>e.parameter\<close>, \<open>sheet\<close> the registration sheet (made
  with its headers when missing) and \<open>store_ok\<close> says whether the spreadsheet
  calls return or one of them throws.
\<close>

definition register ::
  "(string \<rightharpoonup> string) \<Rightarrow> int \<Rightarrow> bool \<Rightarrow> cell list list option
     \<Rightarrow> register_answer \<times> cell list list option" where
  "register e now store_ok sheet =
     (if store_ok
      then (AnswerOk,
            Some ((case sheet of None \<Rightarrow> [register_headers] | Some rows \<Rightarrow> rows) @ [rowData e now]))
      else (RegistrationFailed, sheet))"

section \<open>Facts about the code generator\<close>

declare generateOtp_loop.simps [simp del]

declare decimal.simps [simp del]

lemma generateOtp_loop_eq:
  "generateOtp_loop rnd len i otp = otp @ concat (map (\<lambda>k. digit_at (rnd k)) [i ..< nat len])"
proof (induction rnd len i otp rule: generateOtp_loop.induct)
  case (1 rnd len i otp)
  show ?case
  proof (cases "int i < len")
    case True
    then have "i < nat len" by simp
    then have "[i ..< nat len] = i # [Suc i ..< nat len]" by (rule upt_conv_Cons)
    with True 1 show ?thesis by (simp add: generateOtp_loop.simps [of rnd len i otp])
  next
    case False
    then show ?thesis by (simp add: generateOtp_loop.simps [of rnd len i otp])
  qed
qed

lemma generateOtp_eq:
  "generateOtp len rnd = concat (map (\<lambda>k. digit_at (rnd k)) [0 ..< nat len])"
  by (simp add: generateOtp_def generateOtp_loop_eq)

lemma digit_at_nonempty: "digit_at d \<noteq> []"
  by (simp add: digit_at_def)

lemma generateOtp_nonempty: "0 < len \<Longrightarrow> generateOtp len rnd \<noteq> []"
proof -
  assume "0 < len"
  then have "[0 ..< nat len] = 0 # [Suc 0 ..< nat len]" by (simp add: upt_conv_Cons)
  then show ?thesis by (simp add: generateOtp_eq digit_at_nonempty)
qed

lemma length_digits: "length digits = 10"
  by (simp add: digits_def)

lemma digit_at_lt: "d < 10 \<Longrightarrow> digit_at d = [digits ! d]"
  by (simp add: digit_at_def length_digits)

lemma digit_in_digits: "d < 10 \<Longrightarrow> digits ! d \<in> set digits"
  by (simp add: length_digits)

lemma generateOtp_digits:
  assumes "\<forall>k < nat len. rnd k < 10"
  shows "generateOtp len rnd = map (\<lambda>k. digits ! rnd k) [0 ..< nat len]"
proof -
  have "concat (map (\<lambda>k. digit_at (rnd k)) [0 ..< n]) = map (\<lambda>k. digits ! rnd k) [0 ..< n]"
    if "n \<le> nat len" for n
    using that assms by (induction n) (simp_all add: digit_at_lt)
  then show ?thesis by (simp add: generateOtp_eq)
qed

lemma generateOtp_numeric:
  assumes "\<forall>k < nat len. rnd k < 10"
  shows "length (generateOtp len rnd) = nat len"
    and "\<forall>k < nat len. generateOtp len rnd ! k = digits ! rnd k"
    and "set (generateOtp len rnd) \<subseteq> set digits"
  using assms by (auto simp: generateOtp_digits digit_in_digits)

text \<open>
  Every string of decimal digits, also one that starts with zeros, is the code of
  some draws: the generator maps the draws one to one onto the digit strings of the
  requested length.
\<close>

lemma generateOtp_onto:
  assumes "set w \<subseteq> set digits"
  shows "\<exists>rnd. (\<forall>k. rnd k < 10) \<and> generateOtp (int (length w)) rnd = w"
proof -
  have "\<exists>d. d < 10 \<and> (k < length w \<longrightarrow> digits ! d = w ! k)" for k
  proof (cases "k < length w")
    case True
    with assms have "w ! k \<in> set digits" by auto
    then obtain d where "d < length digits" "digits ! d = w ! k"
      by (auto simp: in_set_conv_nth)
    then show ?thesis by (auto simp: length_digits)
  next
    case False
    then show ?thesis by (intro exI [of _ 0]) simp
  qed
  then have "\<exists>rnd. \<forall>k. rnd k < 10 \<and> (k < length w \<longrightarrow> digits ! rnd k = w ! k)"
    by (intro choice allI)
  then obtain rnd where rnd: "\<forall>k. rnd k < 10 \<and> (k < length w \<longrightarrow> digits ! rnd k = w ! k)" ..
  then have "generateOtp (int (length w)) rnd = map (\<lambda>k. digits ! rnd k) [0 ..< length w]"
    by (simp add: generateOtp_digits)
  also have "\<dots> = w"
  proof (rule nth_equalityI)
    show "length (map (\<lambda>k. digits ! rnd k) [0 ..< length w]) = length w" by simp
  next
    fix i
    assume "i < length (map (\<lambda>k. digits ! rnd k) [0 ..< length w])"
    then have i: "i < length w" by simp
    with rnd have "digits ! rnd i = w ! i" by blast
    with i show "map (\<lambda>k. digits ! rnd k) [0 ..< length w] ! i = w ! i" by simp
  qed
  finally show ?thesis using rnd by blast
qed

lemma digits_nth_nonzero: "0 < d \<Longrightarrow> d < 10 \<Longrightarrow> digits ! d \<noteq> CHR ''0''"
proof -
  assume "0 < d" "d < 10"
  then have "d \<in> {1, 2, 3, 4, 5, 6, 7, 8, 9}" by auto
  then show ?thesis by (auto simp: digits_def)
qed

lemma decimal_nonempty: "decimal n \<noteq> []"
  by (subst decimal.simps) simp

lemma decimal_no_leading_zero: "0 < n \<Longrightarrow> hd (decimal n) \<noteq> CHR ''0''"
proof (induction n rule: decimal.induct)
  case (1 n)
  show ?case
  proof (cases "n div 10 = 0")
    case True
    with 1(2) have "0 < n mod 10" "n mod 10 < 10" by simp_all
    with True show ?thesis by (subst decimal.simps) (simp add: digits_nth_nonzero)
  next
    case False
    with 1(1) have "hd (decimal (n div 10)) \<noteq> CHR ''0''" by simp
    with False show ?thesis
      by (subst decimal.simps) (simp add: decimal_nonempty)
  qed
qed

lemma sendOTP_code_no_leading_zero: "hd (decimal (sendOTP_code r)) \<noteq> CHR ''0''"
  by (rule decimal_no_leading_zero) (simp add: sendOTP_code_def)

lemma decimal_examples:
  "decimal 100000 = ''100000''" "decimal 100001 = ''100001''"
  by (simp_all add: decimal.simps digits_def)

section \<open>Facts about the e-mail check\<close>

text \<open>
  The check accepts exactly the strings of the shape the regular expression
  describes: a local part, \<^verbatim>\<open>@\<close>, a part, a dot and a part, the three parts
  non-empty and free of \<^verbatim>\<open>@\<close> and white space.
\<close>

lemma email_regex_examples:
  "email_regex ''a@b.c''"
  "email_regex ''first.last@mail.example.org''"
  "\<not> email_regex ''a@b''"
  "\<not> email_regex ''a@b.''"
  "\<not> email_regex ''@b.c''"
  "\<not> email_regex ''a b@c.d''"
  "\<not> email_regex ''a@b@c.d''"
  by (simp_all add: email_regex_def not_at_space_def is_space_def)

lemma dot_not_at_space: "not_at_space CHR ''.''"
  by (simp add: not_at_space_def is_space_def)

lemma at_not_class: "\<not> not_at_space CHR ''@''"
  by (simp add: not_at_space_def)

lemma email_regex_iff:
  "email_regex email \<longleftrightarrow>
   (\<exists>a b c. email = a @ CHR ''@'' # b @ CHR ''.'' # c \<and> a \<noteq> [] \<and> b \<noteq> [] \<and> c \<noteq> [] \<and>
      list_all not_at_space a \<and> list_all not_at_space b \<and> list_all not_at_space c)"
  (is "?lhs \<longleftrightarrow> ?rhs")
proof
  assume ?lhs
  define a where "a = takeWhile not_at_space email"
  define rest where "rest = dropWhile not_at_space email"
  from \<open>?lhs\<close> obtain host i where a: "a \<noteq> []" and rest: "rest = CHR ''@'' # host"
    and host: "list_all not_at_space host" and i: "1 \<le> i" "i < length host - 1"
    and dot: "host ! i = CHR ''.''"
    by (auto simp: email_regex_def Let_def a_def rest_def list_ex_iff split: list.splits)
  have "email = a @ rest" by (simp add: a_def rest_def)
  moreover from i have "host = take i host @ host ! i # drop (Suc i) host"
    by (intro id_take_nth_drop) simp
  ultimately have "email = a @ CHR ''@'' # take i host @ CHR ''.'' # drop (Suc i) host"
    using rest dot by simp
  moreover have "list_all not_at_space a" by (simp add: a_def list_all_iff) (meson set_takeWhileD)
  moreover from host have "list_all not_at_space (take i host)" "list_all not_at_space (drop (Suc i) host)"
    by (auto simp: list_all_iff dest: in_set_takeD in_set_dropD)
  moreover from i have "take i host \<noteq> []" "drop (Suc i) host \<noteq> []" by auto
  ultimately show ?rhs using a by blast
next
  assume ?rhs
  then obtain a b c where e: "email = a @ CHR ''@'' # b @ CHR ''.'' # c"
    and ne: "a \<noteq> []" "b \<noteq> []" "c \<noteq> []"
    and cls: "list_all not_at_space a" "list_all not_at_space b" "list_all not_at_space c"
    by blast
  from cls(1) have "takeWhile not_at_space email = a" "dropWhile not_at_space email = CHR ''@'' # b @ CHR ''.'' # c"
    by (simp_all add: e list_all_iff at_not_class)
  moreover from cls have "list_all not_at_space (b @ CHR ''.'' # c)"
    by (simp add: dot_not_at_space)
  moreover from ne have "1 \<le> length b" "length b < length (b @ CHR ''.'' # c) - 1"
    by (simp_all add: Suc_le_eq)
  then have "list_ex (\<lambda>i. (b @ CHR ''.'' # c) ! i = CHR ''.'') [1 ..< length (b @ CHR ''.'' # c) - 1]"
    unfolding list_ex_iff by (intro bexI [of _ "length b"]) simp_all
  ultimately show ?lhs using ne(1) by (simp add: email_regex_def)
qed

section \<open>Facts about one request\<close>

lemma reset_window_fields [simp]:
  "code (reset_window cfg now entry) = code entry"
  "expiresAt (reset_window cfg now entry) = expiresAt entry"
  "lastSentAt (reset_window cfg now entry) = lastSentAt entry"
  by (simp_all add: reset_window_def)

lemma reset_window_count:
  "sentCountInWindow (reset_window cfg now entry) =
     (if now - windowStartAt entry > rateWindowSeconds cfg * 1000 then 0 else sentCountInWindow entry)"
  by (simp add: reset_window_def)

lemma otp_send_stored:
  assumes "snd (snd (otp_send cfg email now rnd mail_ok store)) \<noteq> None"
  shows "email \<noteq> [] \<and> email_regex email \<and>
         otp_send cfg email now rnd mail_ok store =
           (if mail_ok then SendOk else SendFailed,
            store(email \<mapsto> (send_entry cfg email now store)
               \<lparr> code := Some (generateOtp (otpLength cfg) rnd),
                 expiresAt := now + otpTtlSeconds cfg * 1000,
                 lastSentAt := now,
                 sentCountInWindow := sentCountInWindow (send_entry cfg email now store) + 1 \<rparr>),
            Some (otp_mail cfg email (generateOtp (otpLength cfg) rnd)))"
  using assms by (simp add: otp_send_def Let_def split: if_splits)

lemma otp_send_stored_iff:
  "snd (snd (otp_send cfg email now rnd mail_ok store)) \<noteq> None \<longleftrightarrow>
   fst (otp_send cfg email now rnd mail_ok store) = SendOk \<or>
   fst (otp_send cfg email now rnd mail_ok store) = SendFailed"
  by (simp add: otp_send_def Let_def)

lemma otp_send_refused:
  assumes "snd (snd (otp_send cfg email now rnd mail_ok store)) = None"
  shows "fst (snd (otp_send cfg email now rnd mail_ok store)) email =
           (if email = [] \<or> \<not> email_regex email then store email
            else map_option (reset_window cfg now) (store email))"
  using assms by (auto simp: otp_send_def send_entry_def Let_def split: if_splits option.splits)

lemma otp_send_other:
  "e \<noteq> email \<Longrightarrow> fst (snd (otp_send cfg e now rnd mail_ok store)) email = store email"
  by (simp add: otp_send_def Let_def split: option.splits)

lemma otp_verify_other:
  "e \<noteq> email \<Longrightarrow> snd (otp_verify e otp now store) email = store email"
  by (simp add: otp_verify_def split: option.splits)

lemma otp_verify_ok:
  assumes "fst (otp_verify email otp now store) = VerifyOk"
  shows "\<exists>entry. store email = Some entry \<and> code entry = Some otp \<and> otp \<noteq> [] \<and> email \<noteq> [] \<and>
           now \<le> expiresAt entry \<and>
           otp_verify email otp now store = (VerifyOk, store(email \<mapsto> entry\<lparr> code := None \<rparr>))"
  using assms by (auto simp: otp_verify_def split: option.splits if_splits)

lemma otp_verify_not_ok:
  "fst (otp_verify email otp now store) \<noteq> VerifyOk \<Longrightarrow> snd (otp_verify email otp now store) = store"
  by (auto simp: otp_verify_def split: option.splits if_splits)

lemma otp_verify_inactive:
  assumes "\<forall>entry. store email = Some entry \<longrightarrow> code entry = None"
    and "email \<noteq> []" and "otp \<noteq> []"
  shows "fst (otp_verify email otp now store) = NotFound"
  using assms by (auto simp: otp_verify_def split: option.splits)

lemma otp_verify_active:
  assumes "store email = Some entry" and "code entry = Some c" and "c \<noteq> []" and "email \<noteq> []"
    and "now \<le> expiresAt entry"
  shows "otp_verify email c now store = (VerifyOk, store(email \<mapsto> entry\<lparr> code := None \<rparr>))"
  using assms by (simp add: otp_verify_def)

lemma field_present: "map_of body k = Some v \<Longrightarrow> field body k = v"
  by (simp add: field_def)

lemma otp_mail_fields:
  "mail_to (otp_mail cfg email c) = email"
  "mail_text (otp_mail cfg email c) =
     ''Your verification code is '' @ c @ ''. It expires in ''
     @ number_text (otpTtlSeconds cfg div 60) @ '' minutes.''"
  by (simp_all add: otp_mail_def)

section \<open>Facts about sequences of requests\<close>

text \<open>
  What holds of an address after any sequence of requests, in terms of the last
  issuance for it: the store has an entry exactly when a code was issued, the entry
  carries the time of the last issuance, its code is that issuance's code or
  \<^verbatim>\<open>null\<close>, and only well-formed addresses get an entry.
\<close>

lemma step_issued_inv:
  assumes "acc = None \<longrightarrow> s email = None"
    and "\<forall>c t. acc = Some (c, t) \<longrightarrow>
           (\<exists>entry. s email = Some entry \<and> lastSentAt entry = t \<and>
              (code entry = None \<or> code entry = Some c))"
    and "s email \<noteq> None \<longrightarrow> email \<noteq> [] \<and> email_regex email"
    and "acc' = (case issued cfg email ev s of Some ct \<Rightarrow> Some ct | None \<Rightarrow> acc)"
    and "s' = step cfg ev s"
  shows "(acc' = None \<longrightarrow> s' email = None) \<and>
         (\<forall>c t. acc' = Some (c, t) \<longrightarrow>
           (\<exists>entry. s' email = Some entry \<and> lastSentAt entry = t \<and>
              (code entry = None \<or> code entry = Some c))) \<and>
         (s' email \<noteq> None \<longrightarrow> email \<noteq> [] \<and> email_regex email)"
proof (cases ev)
  case (Send e now rnd mail_ok)
  show ?thesis
  proof (cases "e = email")
    case False
    with Send assms show ?thesis by (simp add: otp_send_other)
  next
    case True
    show ?thesis
    proof (cases "snd (snd (otp_send cfg email now rnd mail_ok s)) = None")
      case stored: False
      from otp_send_stored [OF stored] Send True assms(4,5) show ?thesis by simp
    next
      case refused: True
      from refused Send True assms(4) have "acc' = acc" by simp
      moreover from otp_send_refused [OF refused] Send True assms(5)
      have "s' email = s email \<or> s' email = map_option (reset_window cfg now) (s email)"
        by (simp split: if_splits)
      ultimately show ?thesis using assms(1-3) by auto
    qed
  qed
next
  case (Verify e otp now)
  show ?thesis
  proof (cases "e = email")
    case False
    with Verify assms show ?thesis by (simp add: otp_verify_other)
  next
    case True
    show ?thesis
    proof (cases "fst (otp_verify email otp now s) = VerifyOk")
      case True
      from otp_verify_ok [OF True] Verify \<open>e = email\<close> assms show ?thesis by auto
    next
      case False
      from otp_verify_not_ok [OF False] Verify \<open>e = email\<close> assms show ?thesis by simp
    qed
  qed
qed

lemma run_issued_inv:
  assumes "acc = None \<longrightarrow> s email = None"
    and "\<forall>c t. acc = Some (c, t) \<longrightarrow>
           (\<exists>entry. s email = Some entry \<and> lastSentAt entry = t \<and>
              (code entry = None \<or> code entry = Some c))"
    and "s email \<noteq> None \<longrightarrow> email \<noteq> [] \<and> email_regex email"
  shows "(last_issued cfg email evs s acc = None \<longrightarrow> run cfg evs s email = None) \<and>
         (\<forall>c t. last_issued cfg email evs s acc = Some (c, t) \<longrightarrow>
           (\<exists>entry. run cfg evs s email = Some entry \<and> lastSentAt entry = t \<and>
              (code entry = None \<or> code entry = Some c))) \<and>
         (run cfg evs s email \<noteq> None \<longrightarrow> email \<noteq> [] \<and> email_regex email)"
  using assms
proof (induction evs arbitrary: s acc)
  case Nil
  then show ?case by simp
next
  case (Cons ev evs)
  let ?s = "step cfg ev s"
  let ?acc = "case issued cfg email ev s of Some ct \<Rightarrow> Some ct | None \<Rightarrow> acc"
  from step_issued_inv [where s = s and email = email and acc = acc and cfg = cfg and ev = ev,
      OF Cons.prems refl refl]
  have "?acc = None \<longrightarrow> ?s email = None"
    and "\<forall>c t. ?acc = Some (c, t) \<longrightarrow>
           (\<exists>entry. ?s email = Some entry \<and> lastSentAt entry = t \<and>
              (code entry = None \<or> code entry = Some c))"
    and "?s email \<noteq> None \<longrightarrow> email \<noteq> [] \<and> email_regex email"
    by blast+
  from Cons.IH [where s = ?s and acc = ?acc, OF this] show ?case by simp
qed

lemma reachable_issued:
  "(last_issued cfg email evs Map.empty None = None \<longrightarrow> run cfg evs Map.empty email = None) \<and>
   (\<forall>c t. last_issued cfg email evs Map.empty None = Some (c, t) \<longrightarrow>
      (\<exists>entry. run cfg evs Map.empty email = Some entry \<and> lastSentAt entry = t \<and>
         (code entry = None \<or> code entry = Some c))) \<and>
   (run cfg evs Map.empty email \<noteq> None \<longrightarrow> email \<noteq> [] \<and> email_regex email)"
  by (rule run_issued_inv) simp_all

text \<open>
  The stored count of an address is at least the number of its successful
  issuances since its window started.
\<close>

lemma step_tally_inv:
  assumes "s email = None \<longrightarrow> g = 0"
    and "\<forall>entry. s email = Some entry \<longrightarrow> g \<le> sentCountInWindow entry"
  shows "(step cfg ev s email = None \<longrightarrow> tally cfg email ev s g = 0) \<and>
         (\<forall>entry. step cfg ev s email = Some entry \<longrightarrow>
            tally cfg email ev s g \<le> sentCountInWindow entry)"
proof (cases ev)
  case (Send e now rnd mail_ok)
  show ?thesis
  proof (cases "e = email")
    case False
    with Send assms show ?thesis by (simp add: otp_send_other)
  next
    case True
    show ?thesis
    proof (cases "snd (snd (otp_send cfg email now rnd mail_ok s)) = None")
      case stored: False
      from otp_send_stored [OF stored] Send True assms show ?thesis
        by (auto simp: send_entry_def reset_window_count fresh_entry_def split: option.splits)
    next
      case refused: True
      then have "fst (otp_send cfg email now rnd mail_ok s) \<noteq> SendOk"
        using otp_send_stored_iff [of cfg email now rnd mail_ok s] by auto
      with otp_send_refused [OF refused] Send True assms
      show ?thesis
        by (auto simp: reset_window_count split: option.splits if_splits)
    qed
  qed
next
  case (Verify e otp now)
  show ?thesis
  proof (cases "e = email")
    case False
    with Verify assms show ?thesis by (simp add: otp_verify_other)
  next
    case True
    show ?thesis
    proof (cases "fst (otp_verify email otp now s) = VerifyOk")
      case True
      from otp_verify_ok [OF True] Verify \<open>e = email\<close> assms show ?thesis by auto
    next
      case False
      from otp_verify_not_ok [OF False] Verify \<open>e = email\<close> assms show ?thesis by simp
    qed
  qed
qed

lemma run_tally_inv:
  assumes "s email = None \<longrightarrow> g = 0"
    and "\<forall>entry. s email = Some entry \<longrightarrow> g \<le> sentCountInWindow entry"
  shows "(run cfg evs s email = None \<longrightarrow> ok_in_window cfg email evs s g = 0) \<and>
         (\<forall>entry. run cfg evs s email = Some entry \<longrightarrow>
            ok_in_window cfg email evs s g \<le> sentCountInWindow entry)"
  using assms
proof (induction evs arbitrary: s g)
  case Nil
  then show ?case by simp
next
  case (Cons ev evs)
  from step_tally_inv [where s = s and email = email and g = g, OF Cons.prems, of cfg ev]
  have "step cfg ev s email = None \<longrightarrow> tally cfg email ev s g = 0"
    and "\<forall>entry. step cfg ev s email = Some entry \<longrightarrow>
            tally cfg email ev s g \<le> sentCountInWindow entry"
    by simp_all
  from Cons.IH [where s = "step cfg ev s" and g = "tally cfg email ev s g", OF this]
  show ?case by simp
qed

text \<open>
  Requests that neither issue a code for an address nor present its active code
  leave its entry as it is; requests that do not issue a code for it leave an
  inactive entry inactive.
\<close>

lemma step_not_for:
  assumes "\<not> sends_to email ev" and "\<not> verifies email c ev"
    and "s email = Some entry" and "code entry = Some c"
  shows "step cfg ev s email = Some entry"
proof (cases ev)
  case (Send e now rnd mail_ok)
  with assms show ?thesis by (simp add: otp_send_other)
next
  case (Verify e otp now)
  show ?thesis
  proof (cases "e = email")
    case False
    with Verify assms show ?thesis by (simp add: otp_verify_other)
  next
    case True
    with Verify assms(2) have "otp \<noteq> c" by simp
    with assms(3,4) have "fst (otp_verify email otp now s) \<noteq> VerifyOk"
      using otp_verify_ok [of email otp now s] by auto
    from otp_verify_not_ok [OF this] Verify True assms(3) show ?thesis by simp
  qed
qed

lemma run_not_for:
  assumes "\<forall>ev \<in> set evs. \<not> sends_to email ev \<and> \<not> verifies email c ev"
    and "s email = Some entry" and "code entry = Some c"
  shows "run cfg evs s email = Some entry"
  using assms
proof (induction evs arbitrary: s)
  case Nil
  then show ?case by simp
next
  case (Cons ev evs)
  from Cons.prems have "step cfg ev s email = Some entry"
    by (intro step_not_for [where c = c]) simp_all
  with Cons.IH [where s = "step cfg ev s"] Cons.prems show ?case by simp
qed

lemma step_no_send:
  assumes "\<not> sends_to email ev"
    and "\<forall>entry. s email = Some entry \<longrightarrow> code entry = None"
  shows "\<forall>entry. step cfg ev s email = Some entry \<longrightarrow> code entry = None"
proof (cases ev)
  case (Send e now rnd mail_ok)
  with assms show ?thesis by (simp add: otp_send_other)
next
  case (Verify e otp now)
  show ?thesis
  proof (cases "e = email")
    case False
    with Verify assms show ?thesis by (simp add: otp_verify_other)
  next
    case True
    from assms(2) have "fst (otp_verify email otp now s) \<noteq> VerifyOk"
      using otp_verify_ok [of email otp now s] by auto
    from otp_verify_not_ok [OF this] Verify True assms(2) show ?thesis by simp
  qed
qed

lemma run_no_send:
  assumes "\<forall>ev \<in> set evs. \<not> sends_to email ev"
    and "\<forall>entry. s email = Some entry \<longrightarrow> code entry = None"
  shows "\<forall>entry. run cfg evs s email = Some entry \<longrightarrow> code entry = None"
  using assms
proof (induction evs arbitrary: s)
  case Nil
  then show ?case by simp
next
  case (Cons ev evs)
  from Cons.prems have "\<forall>entry. step cfg ev s email = Some entry \<longrightarrow> code entry = None"
    by (intro step_no_send) simp_all
  with Cons.IH [where s = "step cfg ev s"] Cons.prems show ?case by simp
qed

section \<open>The OTP lifecycle on the Express server\<close>

subsection \<open>Single use\<close>

text \<open>
  Claim C1, for the Express server with a code length of at least 1. Let a send
  request for an address store a code \<open>c\<close> at time \<open>t0\<close> (it is answered
  \<^verbatim>\<open>{ ok: true }\<close>, or \<^verbatim>\<open>Failed to send OTP\<close> after the code was stored). Let
  any requests follow that neither issue a code for the address nor present \<open>c\<close>
  for it. Then a verify request with \<open>c\<close> not later than \<open>t0\<close> plus the time to
  live succeeds, and after it, and after any further requests that do not issue a
  code for the address, a verify request with \<open>c\<close> at any time is answered
  \<^verbatim>\<open>OTP not found\<close>.
\<close>

theorem issued_code_single_use:
  assumes "0 < otpLength cfg"
    and "fst (otp_send cfg email t0 rnd mail_ok store) = SendOk \<or>
         fst (otp_send cfg email t0 rnd mail_ok store) = SendFailed"
    and "\<forall>ev \<in> set evs0. \<not> sends_to email ev \<and> \<not> verifies email (generateOtp (otpLength cfg) rnd) ev"
    and "t1 \<le> t0 + otpTtlSeconds cfg * 1000"
    and "\<forall>ev \<in> set evs1. \<not> sends_to email ev"
  shows "let c = generateOtp (otpLength cfg) rnd;
             s1 = run cfg evs0 (fst (snd (otp_send cfg email t0 rnd mail_ok store)));
             s2 = run cfg evs1 (snd (otp_verify email c t1 s1))
         in fst (otp_verify email c t1 s1) = VerifyOk \<and>
            fst (otp_verify email c t2 s2) = NotFound"
proof -
  define c where "c = generateOtp (otpLength cfg) rnd"
  define entry where "entry = (send_entry cfg email t0 store)
      \<lparr> code := Some c, expiresAt := t0 + otpTtlSeconds cfg * 1000, lastSentAt := t0,
        sentCountInWindow := sentCountInWindow (send_entry cfg email t0 store) + 1 \<rparr>"
  define s0 where "s0 = fst (snd (otp_send cfg email t0 rnd mail_ok store))"
  define s1 where "s1 = run cfg evs0 s0"
  define s2 where "s2 = run cfg evs1 (snd (otp_verify email c t1 s1))"
  from assms(2) have stored: "snd (snd (otp_send cfg email t0 rnd mail_ok store)) \<noteq> None"
    using otp_send_stored_iff [of cfg email t0 rnd mail_ok store] by blast
  from otp_send_stored [OF stored] have valid: "email \<noteq> []" and s0: "s0 email = Some entry"
    by (simp_all add: s0_def entry_def c_def)
  from assms(1) have c: "c \<noteq> []" by (simp add: c_def generateOtp_nonempty)
  have "code entry = Some c" by (simp add: entry_def)
  with assms(3) s0 have s1: "s1 email = Some entry"
    unfolding s1_def c_def by (intro run_not_for [where c = "generateOtp (otpLength cfg) rnd"]) simp_all
  from assms(4) have "t1 \<le> expiresAt entry" by (simp add: entry_def)
  with s1 \<open>code entry = Some c\<close> c valid
  have first: "otp_verify email c t1 s1 = (VerifyOk, s1(email \<mapsto> entry\<lparr> code := None \<rparr>))"
    by (intro otp_verify_active)
  then have "\<forall>e. (snd (otp_verify email c t1 s1)) email = Some e \<longrightarrow> code e = None" by simp
  with assms(5) have "\<forall>e. s2 email = Some e \<longrightarrow> code e = None"
    unfolding s2_def by (intro run_no_send)
  with valid c have "fst (otp_verify email c t2 s2) = NotFound" by (intro otp_verify_inactive)
  with first show ?thesis by (simp add: Let_def c_def s0_def s1_def s2_def)
qed

theorem issued_code_single_use_witness:
  "fst (otp_send default_config ''a@b.c'' 1000000 ((!) [0, 4, 2, 9, 1, 3]) True Map.empty) = SendOk \<and>
   generateOtp (otpLength default_config) ((!) [0, 4, 2, 9, 1, 3]) = ''042913'' \<and>
   fst (otp_verify ''a@b.c'' ''042913'' 1500000
     (run default_config [Verify ''a@b.c'' ''111111'' 1200000]
        (fst (snd (otp_send default_config ''a@b.c'' 1000000 ((!) [0, 4, 2, 9, 1, 3]) True Map.empty)))))
     = VerifyOk \<and>
   fst (otp_verify ''a@b.c'' ''042913'' 1550000
     (run default_config [Verify ''a@b.c'' ''111111'' 1520000, Send ''x@y.z'' 1530000 (\<lambda>i. 0) True]
        (snd (otp_verify ''a@b.c'' ''042913'' 1500000
           (run default_config [Verify ''a@b.c'' ''111111'' 1200000]
              (fst (snd (otp_send default_config ''a@b.c'' 1000000 ((!) [0, 4, 2, 9, 1, 3]) True
                 Map.empty)))))))) = NotFound"
proof -
  let ?rnd = "(!) [0, 4, 2, 9, 1, 3 :: nat]"
  have e: "generateOtp (otpLength default_config) ?rnd = ''042913''"
    by code_simp
  have a: "0 < otpLength default_config"
    and c: "1500000 \<le> 1000000 + otpTtlSeconds default_config * 1000"
    by (simp_all add: default_config_def)
  have s: "fst (otp_send default_config ''a@b.c'' 1000000 ?rnd True Map.empty) = SendOk"
    by code_simp
  then have b: "fst (otp_send default_config ''a@b.c'' 1000000 ?rnd True Map.empty) = SendOk \<or>
      fst (otp_send default_config ''a@b.c'' 1000000 ?rnd True Map.empty) = SendFailed" ..
  have d: "\<forall>ev \<in> set [Verify ''a@b.c'' ''111111'' 1200000].
      \<not> sends_to ''a@b.c'' ev \<and> \<not> verifies ''a@b.c'' (generateOtp (otpLength default_config) ?rnd) ev"
    unfolding e by simp
  have f: "\<forall>ev \<in> set [Verify ''a@b.c'' ''111111'' 1520000, Send ''x@y.z'' 1530000 (\<lambda>i. 0) True].
      \<not> sends_to ''a@b.c'' ev"
    by simp
  from issued_code_single_use [OF a b d c f, of 1550000] s e show ?thesis
    unfolding Let_def e by blast
qed

text \<open>
  The Apps Script backend does not have this property: \<^verbatim>\<open>verifyOTP\<close> only reads
  the sheet, so the code that was accepted once is accepted again, here 100 and
  200 seconds after it was issued.
\<close>

theorem apps_script_code_reusable:
  "fst (sendOTP (Some ''a@b.c'') 0 1000000 True (Some [HeaderRow])) = OtpSent \<and>
   fst (snd (sendOTP (Some ''a@b.c'') 0 1000000 True (Some [HeaderRow])))
     = Some [HeaderRow, OtpRow ''a@b.c'' 100000 1000000] \<and>
   verifyOTP (Some ''a@b.c'') (Some ''100000'') 1100000
     (Some [HeaderRow, OtpRow ''a@b.c'' 100000 1000000]) = OtpValid \<and>
   verifyOTP (Some ''a@b.c'') (Some ''100000'') 1200000
     (Some [HeaderRow, OtpRow ''a@b.c'' 100000 1000000]) = OtpValid"
  by (simp add: sendOTP_def sendOTP_code_def verifyOTP_def decimal_examples)

subsection \<open>The order of the checks of a verify request\<close>

text \<open>
  Claim C2, for a non-empty address and a non-empty candidate. A verify request is
  answered \<^verbatim>\<open>OTP not found\<close> when the store has no entry for the address or the
  entry has no code (\<^verbatim>\<open>null\<close> or the empty string); otherwise
  \<^verbatim>\<open>OTP expired\<close> when the time is past the stored expiry, whatever the
  candidate; otherwise \<^verbatim>\<open>Invalid OTP\<close> when the candidate differs from the stored
  code as a string; otherwise it succeeds.
\<close>

theorem verify_checks_in_order:
  assumes "email \<noteq> []" and "otp \<noteq> []"
  shows "(store email = None \<longrightarrow> fst (otp_verify email otp now store) = NotFound) \<and>
         (\<forall>entry. store email = Some entry \<longrightarrow>
            (code entry = None \<or> code entry = Some [] \<longrightarrow>
               fst (otp_verify email otp now store) = NotFound) \<and>
            (\<forall>c. code entry = Some c \<and> c \<noteq> [] \<longrightarrow>
               (now > expiresAt entry \<longrightarrow> fst (otp_verify email otp now store) = Expired) \<and>
               (now \<le> expiresAt entry \<and> otp \<noteq> c \<longrightarrow>
                  fst (otp_verify email otp now store) = Mismatch) \<and>
               (now \<le> expiresAt entry \<and> otp = c \<longrightarrow>
                  fst (otp_verify email otp now store) = VerifyOk)))"
  using assms by (auto simp: otp_verify_def)

theorem verify_checks_in_order_witness:
  "fst (otp_verify ''a@b.c'' ''042913'' 1500000 Map.empty) = NotFound \<and>
   fst (otp_verify ''a@b.c'' ''042913'' 1500000
     [''a@b.c'' \<mapsto> \<lparr> code = None, expiresAt = 1600000, lastSentAt = 1000000,
                      windowStartAt = 1000000, sentCountInWindow = 1 \<rparr>]) = NotFound \<and>
   fst (otp_verify ''a@b.c'' ''042913'' 1700000
     [''a@b.c'' \<mapsto> \<lparr> code = Some ''042913'', expiresAt = 1600000, lastSentAt = 1000000,
                      windowStartAt = 1000000, sentCountInWindow = 1 \<rparr>]) = Expired \<and>
   fst (otp_verify ''a@b.c'' ''42913'' 1500000
     [''a@b.c'' \<mapsto> \<lparr> code = Some ''042913'', expiresAt = 1600000, lastSentAt = 1000000,
                      windowStartAt = 1000000, sentCountInWindow = 1 \<rparr>]) = Mismatch \<and>
   fst (otp_verify ''a@b.c'' ''042913'' 1500000
     [''a@b.c'' \<mapsto> \<lparr> code = Some ''042913'', expiresAt = 1600000, lastSentAt = 1000000,
                      windowStartAt = 1000000, sentCountInWindow = 1 \<rparr>]) = VerifyOk"
proof -
  have ne: "''a@b.c'' \<noteq> []" "''042913'' \<noteq> []" "''42913'' \<noteq> []" by simp_all
  let ?used = "\<lparr> code = None, expiresAt = 1600000, lastSentAt = 1000000,
                      windowStartAt = 1000000, sentCountInWindow = 1 \<rparr>"
  let ?live = "\<lparr> code = Some ''042913'', expiresAt = 1600000, lastSentAt = 1000000,
                      windowStartAt = 1000000, sentCountInWindow = 1 \<rparr>"
  from verify_checks_in_order [OF ne(1) ne(2), of Map.empty 1500000]
  have "fst (otp_verify ''a@b.c'' ''042913'' 1500000 Map.empty) = NotFound" by simp
  moreover from verify_checks_in_order [OF ne(1) ne(2), of "[''a@b.c'' \<mapsto> ?used]" 1500000]
  have "fst (otp_verify ''a@b.c'' ''042913'' 1500000 [''a@b.c'' \<mapsto> ?used]) = NotFound" by simp
  moreover from verify_checks_in_order [OF ne(1) ne(2), of "[''a@b.c'' \<mapsto> ?live]" 1700000]
  have "fst (otp_verify ''a@b.c'' ''042913'' 1700000 [''a@b.c'' \<mapsto> ?live]) = Expired" by simp
  moreover from verify_checks_in_order [OF ne(1) ne(3), of "[''a@b.c'' \<mapsto> ?live]" 1500000]
  have "fst (otp_verify ''a@b.c'' ''42913'' 1500000 [''a@b.c'' \<mapsto> ?live]) = Mismatch" by simp
  moreover from verify_checks_in_order [OF ne(1) ne(2), of "[''a@b.c'' \<mapsto> ?live]" 1500000]
  have "fst (otp_verify ''a@b.c'' ''042913'' 1500000 [''a@b.c'' \<mapsto> ?live]) = VerifyOk" by simp
  ultimately show ?thesis by blast
qed

text \<open>
  An empty candidate is refused before the store is looked at: the answer is
  \<^verbatim>\<open>email and otp required\<close>, not \<^verbatim>\<open>OTP not found\<close>, also before any issuance.
\<close>

theorem verify_empty_candidate:
  "fst (otp_verify ''a@b.c'' [] 1500000 Map.empty) = InvalidInput \<and>
   fst (otp_verify ''a@b.c'' [] 1500000 Map.empty) \<noteq> NotFound"
  by (simp add: otp_verify_def)

subsection \<open>The limits on issuing\<close>

text \<open>
  Claim C3. After any sequence of requests from the start of the server, if the
  number of send requests for an address that succeeded since its rate window
  started has reached the configured maximum, and the window has not elapsed at
  the time of the next send request for the address, that request is answered
  \<^verbatim>\<open>Too many OTP requests\<close>.
\<close>

theorem rate_limited_after_max:
  assumes "rateMaxPerWindow cfg \<le> ok_in_window cfg email evs Map.empty 0"
    and "run cfg evs Map.empty email = Some entry"
    and "now - windowStartAt entry \<le> rateWindowSeconds cfg * 1000"
  shows "fst (otp_send cfg email now rnd mail_ok (run cfg evs Map.empty)) = RateLimited"
proof -
  from reachable_issued [of cfg email evs] assms(2)
  have valid: "email \<noteq> []" "email_regex email" by simp_all
  from run_tally_inv [where s = Map.empty and email = email and g = 0 and cfg = cfg and evs = evs] assms(2)
  have "ok_in_window cfg email evs Map.empty 0 \<le> sentCountInWindow entry" by simp
  with assms(1) have "rateMaxPerWindow cfg \<le> sentCountInWindow entry" by simp
  with assms(2,3) valid show ?thesis
    by (simp add: otp_send_def send_entry_def reset_window_def)
qed

theorem rate_limited_after_max_witness:
  "rateMaxPerWindow default_config \<le> ok_in_window default_config ''a@b.c''
     [Send ''a@b.c'' 1000000 (\<lambda>i. i) True,
      Send ''a@b.c'' 1100000 (\<lambda>i. i) True,
      Verify ''a@b.c'' ''012345'' 1150000,
      Send ''a@b.c'' 1200000 (\<lambda>i. i) True,
      Send ''a@b.c'' 1300000 (\<lambda>i. i) True,
      Send ''a@b.c'' 1400000 (\<lambda>i. i) True] Map.empty 0 \<and>
   run default_config
     [Send ''a@b.c'' 1000000 (\<lambda>i. i) True,
      Send ''a@b.c'' 1100000 (\<lambda>i. i) True,
      Verify ''a@b.c'' ''012345'' 1150000,
      Send ''a@b.c'' 1200000 (\<lambda>i. i) True,
      Send ''a@b.c'' 1300000 (\<lambda>i. i) True,
      Send ''a@b.c'' 1400000 (\<lambda>i. i) True] Map.empty ''a@b.c''
     = Some \<lparr> code = Some ''012345'', expiresAt = 2000000, lastSentAt = 1400000,
              windowStartAt = 1000000, sentCountInWindow = 5 \<rparr> \<and>
   fst (otp_send default_config ''a@b.c'' 1500000 (\<lambda>i. i) True
     (run default_config
       [Send ''a@b.c'' 1000000 (\<lambda>i. i) True,
        Send ''a@b.c'' 1100000 (\<lambda>i. i) True,
        Verify ''a@b.c'' ''012345'' 1150000,
        Send ''a@b.c'' 1200000 (\<lambda>i. i) True,
        Send ''a@b.c'' 1300000 (\<lambda>i. i) True,
        Send ''a@b.c'' 1400000 (\<lambda>i. i) True] Map.empty)) = RateLimited"
proof -
  let ?evs = "[Send ''a@b.c'' 1000000 (\<lambda>i. i) True,
      Send ''a@b.c'' 1100000 (\<lambda>i. i) True,
      Verify ''a@b.c'' ''012345'' 1150000,
      Send ''a@b.c'' 1200000 (\<lambda>i. i) True,
      Send ''a@b.c'' 1300000 (\<lambda>i. i) True,
      Send ''a@b.c'' 1400000 (\<lambda>i. i) True]"
  let ?entry = "\<lparr> code = Some ''012345'', expiresAt = 2000000, lastSentAt = 1400000,
              windowStartAt = 1000000, sentCountInWindow = 5 \<rparr>"
  have a: "rateMaxPerWindow default_config \<le> ok_in_window default_config ''a@b.c'' ?evs Map.empty 0"
    by code_simp
  have b: "run default_config ?evs Map.empty ''a@b.c'' = Some ?entry"
    by code_simp
  have c: "1500000 - windowStartAt ?entry \<le> rateWindowSeconds default_config * 1000"
    by (simp add: default_config_def)
  from rate_limited_after_max [OF a b c] a b show ?thesis by blast
qed

text \<open>
  Claim C4. After any sequence of requests from the start of the server in which
  a code was issued for an address, last at time \<open>t0\<close>, a send request for the
  address at a time less than the minimum resend interval after \<open>t0\<close> is answered
  \<^verbatim>\<open>Please wait before requesting another OTP\<close>, provided the count of the
  window (after the handler's window test) is below the configured maximum.
\<close>

theorem too_soon_after_issuance:
  assumes "last_issued cfg email evs Map.empty None = Some (c, t0)"
    and "now - t0 < minResendIntervalSeconds cfg * 1000"
    and "run cfg evs Map.empty email = Some entry"
    and "sentCountInWindow (reset_window cfg now entry) < rateMaxPerWindow cfg"
  shows "fst (otp_send cfg email now rnd mail_ok (run cfg evs Map.empty)) = TooSoon"
proof -
  from reachable_issued [of cfg email evs] assms(1,3)
  have "email \<noteq> []" "email_regex email" "lastSentAt entry = t0" by auto
  with assms(2-4) show ?thesis
    by (simp add: otp_send_def send_entry_def Let_def)
qed

theorem too_soon_after_issuance_witness:
  "last_issued default_config ''a@b.c'' [Send ''a@b.c'' 1000000 (\<lambda>i. i) True] Map.empty None
     = Some (''012345'', 1000000) \<and>
   run default_config [Send ''a@b.c'' 1000000 (\<lambda>i. i) True] Map.empty ''a@b.c''
     = Some \<lparr> code = Some ''012345'', expiresAt = 1600000, lastSentAt = 1000000,
              windowStartAt = 1000000, sentCountInWindow = 1 \<rparr> \<and>
   fst (otp_send default_config ''a@b.c'' 1030000 (\<lambda>i. i) True
     (run default_config [Send ''a@b.c'' 1000000 (\<lambda>i. i) True] Map.empty)) = TooSoon"
proof -
  let ?evs = "[Send ''a@b.c'' 1000000 (\<lambda>i. i) True]"
  let ?entry = "\<lparr> code = Some ''012345'', expiresAt = 1600000, lastSentAt = 1000000,
              windowStartAt = 1000000, sentCountInWindow = 1 \<rparr>"
  have a: "last_issued default_config ''a@b.c'' ?evs Map.empty None = Some (''012345'', 1000000)"
    by code_simp
  have b: "1030000 - 1000000 < minResendIntervalSeconds default_config * 1000"
    by (simp add: default_config_def)
  have c: "run default_config ?evs Map.empty ''a@b.c'' = Some ?entry"
    by code_simp
  have d: "sentCountInWindow (reset_window default_config 1030000 ?entry) < rateMaxPerWindow default_config"
    by (simp add: default_config_def reset_window_def)
  from too_soon_after_issuance [OF a b c d] a c show ?thesis by blast
qed

subsection \<open>A successful issuance\<close>

text \<open>
  Claim C5, for the Express server. When a send request succeeds and every draw
  is a digit index (below 10), the code \<open>c\<close> has as many characters as the
  configured length says (none for a length below 1), each the decimal digit its
  own draw selects; the entry stored for the address has the code \<open>c\<close>, the
  expiry \<open>now\<close> plus the time to live, the count of the window (after the
  handler's window test) plus one, and the issuance time \<open>now\<close>; and the message
  handed to \<^verbatim>\<open>sendEmail\<close> goes to the address and carries \<open>c\<close>. By
  \<open>generateOtp_onto\<close> every digit string of the length, also one with leading
  zeros, is the code of some draws.
\<close>

theorem send_success_effects:
  assumes "fst (otp_send cfg email now rnd mail_ok store) = SendOk"
    and "\<forall>k < nat (otpLength cfg). rnd k < 10"
  shows "let c = generateOtp (otpLength cfg) rnd;
             start = send_entry cfg email now store
         in length c = nat (otpLength cfg) \<and>
            set c \<subseteq> set digits \<and>
            (\<forall>k < length c. c ! k = digits ! rnd k) \<and>
            (\<exists>entry. fst (snd (otp_send cfg email now rnd mail_ok store)) = store(email \<mapsto> entry) \<and>
               code entry = Some c \<and>
               expiresAt entry = now + otpTtlSeconds cfg * 1000 \<and>
               sentCountInWindow entry = sentCountInWindow start + 1 \<and>
               lastSentAt entry = now \<and>
               windowStartAt entry = windowStartAt start) \<and>
            snd (snd (otp_send cfg email now rnd mail_ok store)) = Some (otp_mail cfg email c) \<and>
            mail_to (otp_mail cfg email c) = email \<and>
            mail_text (otp_mail cfg email c) =
              ''Your verification code is '' @ c @ ''. It expires in ''
              @ number_text (otpTtlSeconds cfg div 60) @ '' minutes.''"
proof -
  define c where "c = generateOtp (otpLength cfg) rnd"
  define start where "start = send_entry cfg email now store"
  define entry where "entry = start
      \<lparr> code := Some c, expiresAt := now + otpTtlSeconds cfg * 1000, lastSentAt := now,
        sentCountInWindow := sentCountInWindow start + 1 \<rparr>"
  from assms(1) have "snd (snd (otp_send cfg email now rnd mail_ok store)) \<noteq> None"
    using otp_send_stored_iff [of cfg email now rnd mail_ok store] by blast
  from otp_send_stored [OF this]
  have st: "fst (snd (otp_send cfg email now rnd mail_ok store)) = store(email \<mapsto> entry)"
    and ml: "snd (snd (otp_send cfg email now rnd mail_ok store)) = Some (otp_mail cfg email c)"
    by (simp_all add: entry_def start_def c_def)
  have fields: "code entry = Some c \<and> expiresAt entry = now + otpTtlSeconds cfg * 1000 \<and>
      sentCountInWindow entry = sentCountInWindow start + 1 \<and> lastSentAt entry = now \<and>
      windowStartAt entry = windowStartAt start"
    by (simp add: entry_def)
  from generateOtp_numeric [OF assms(2)]
  have num: "length c = nat (otpLength cfg)" "set c \<subseteq> set digits" "\<forall>k < length c. c ! k = digits ! rnd k"
    by (simp_all add: c_def)
  from st fields have "\<exists>entry. fst (snd (otp_send cfg email now rnd mail_ok store)) = store(email \<mapsto> entry) \<and>
               code entry = Some c \<and>
               expiresAt entry = now + otpTtlSeconds cfg * 1000 \<and>
               sentCountInWindow entry = sentCountInWindow start + 1 \<and>
               lastSentAt entry = now \<and>
               windowStartAt entry = windowStartAt start"
    by blast
  with num ml otp_mail_fields [of cfg email c] show ?thesis
    unfolding Let_def c_def [symmetric] start_def [symmetric] by blast
qed

theorem send_success_effects_witness:
  "fst (otp_send default_config ''a@b.c'' 1000000 ((!) [0, 4, 2, 9, 1, 3]) True Map.empty) = SendOk \<and>
   generateOtp (otpLength default_config) ((!) [0, 4, 2, 9, 1, 3]) = ''042913'' \<and>
   length (generateOtp (otpLength default_config) ((!) [0, 4, 2, 9, 1, 3])) = 6 \<and>
   (\<exists>entry. fst (snd (otp_send default_config ''a@b.c'' 1000000 ((!) [0, 4, 2, 9, 1, 3]) True Map.empty))
        = [''a@b.c'' \<mapsto> entry] \<and>
      code entry = Some ''042913'' \<and> expiresAt entry = 1600000 \<and> sentCountInWindow entry = 1 \<and>
      lastSentAt entry = 1000000 \<and> windowStartAt entry = 1000000) \<and>
   snd (snd (otp_send default_config ''a@b.c'' 1000000 ((!) [0, 4, 2, 9, 1, 3]) True Map.empty))
     = Some (otp_mail default_config ''a@b.c'' ''042913'') \<and>
   mail_text (otp_mail default_config ''a@b.c'' ''042913'')
     = ''Your verification code is 042913. It expires in 10 minutes.''"
proof -
  let ?rnd = "(!) [0, 4, 2, 9, 1, 3 :: nat]"
  have a: "fst (otp_send default_config ''a@b.c'' 1000000 ?rnd True Map.empty) = SendOk"
    by code_simp
  have "list_all (\<lambda>d. d < 10) [0, 4, 2, 9, 1, 3 :: nat]" by simp
  then have b: "\<forall>k < nat (otpLength default_config). ?rnd k < 10"
    by (simp add: list_all_length default_config_def)
  have c: "generateOtp (otpLength default_config) ?rnd = ''042913''"
    by code_simp
  have d: "sentCountInWindow (send_entry default_config ''a@b.c'' 1000000 Map.empty) = 0"
    "windowStartAt (send_entry default_config ''a@b.c'' 1000000 Map.empty) = 1000000"
    "otpTtlSeconds default_config = 600" "nat (otpLength default_config) = 6"
    by (simp_all add: send_entry_def reset_window_def fresh_entry_def default_config_def)
  have e: "mail_text (otp_mail default_config ''a@b.c'' ''042913'')
      = ''Your verification code is 042913. It expires in 10 minutes.''"
    by (simp add: otp_mail_def default_config_def number_text_def decimal.simps digits_def)
  note th = send_success_effects [OF a b, unfolded Let_def c d]
  from th have "\<exists>entry. fst (snd (otp_send default_config ''a@b.c'' 1000000 ?rnd True Map.empty))
        = [''a@b.c'' \<mapsto> entry] \<and>
      code entry = Some ''042913'' \<and> expiresAt entry = 1000000 + 600 * 1000 \<and>
      sentCountInWindow entry = 0 + 1 \<and>
      lastSentAt entry = 1000000 \<and> windowStartAt entry = 1000000"
    by blast
  then have p: "\<exists>entry. fst (snd (otp_send default_config ''a@b.c'' 1000000 ?rnd True Map.empty))
        = [''a@b.c'' \<mapsto> entry] \<and>
      code entry = Some ''042913'' \<and> expiresAt entry = 1600000 \<and> sentCountInWindow entry = 1 \<and>
      lastSentAt entry = 1000000 \<and> windowStartAt entry = 1000000"
    by simp
  from th have q: "snd (snd (otp_send default_config ''a@b.c'' 1000000 ?rnd True Map.empty))
     = Some (otp_mail default_config ''a@b.c'' ''042913'')"
    by blast
  have r: "length (generateOtp (otpLength default_config) ?rnd) = 6"
    unfolding c by simp
  from a c r p q e show ?thesis by blast
qed

text \<open>
  The Apps Script backend issues differently: \<^verbatim>\<open>sendOTP\<close> appends the address, the
  code and the time to the sheet, without expiry or count, and its code is a
  number from 100000 on, whose decimal text never starts with a zero.
\<close>

theorem apps_script_issue:
  "sendOTP (Some ''a@b.c'') 0 1000000 True (Some [HeaderRow])
     = (OtpSent, Some [HeaderRow, OtpRow ''a@b.c'' 100000 1000000],
        Some (''a@b.c'', sendOTP_body 100000)) \<and>
   \<not> (\<exists>r. hd (decimal (sendOTP_code r)) = CHR ''0'')"
  by (simp add: sendOTP_def sendOTP_code_def sendOTP_code_no_leading_zero [unfolded sendOTP_code_def])

subsection \<open>One active code\<close>

text \<open>
  Claim C6, for the Express server. In the store reached by any sequence of
  requests from the start of the server, two candidates that a verify request
  would accept for the same address are equal, and the accepted candidate is the
  code most recently issued for the address.
\<close>

theorem one_active_code:
  assumes "fst (otp_verify email c1 t1 (run cfg evs Map.empty)) = VerifyOk"
    and "fst (otp_verify email c2 t2 (run cfg evs Map.empty)) = VerifyOk"
  shows "c1 = c2 \<and> map_option fst (last_issued cfg email evs Map.empty None) = Some c1"
proof -
  from otp_verify_ok [OF assms(1)] obtain entry where
    e: "run cfg evs Map.empty email = Some entry" "code entry = Some c1" by blast
  from otp_verify_ok [OF assms(2)] e have "c1 = c2" by auto
  moreover from reachable_issued [of cfg email evs] e
  have "map_option fst (last_issued cfg email evs Map.empty None) = Some c1"
    by (cases "last_issued cfg email evs Map.empty None") auto
  ultimately show ?thesis by simp
qed

theorem one_active_code_witness:
  "fst (otp_verify ''a@b.c'' ''000000'' 1200000
     (run default_config
        [Send ''a@b.c'' 1000000 (\<lambda>i. i) True, Send ''a@b.c'' 1100000 (\<lambda>i. 0) True] Map.empty))
     = VerifyOk \<and>
   map_option fst (last_issued default_config ''a@b.c''
        [Send ''a@b.c'' 1000000 (\<lambda>i. i) True, Send ''a@b.c'' 1100000 (\<lambda>i. 0) True] Map.empty None)
     = Some ''000000'' \<and>
   fst (otp_verify ''a@b.c'' ''012345'' 1200000
     (run default_config
        [Send ''a@b.c'' 1000000 (\<lambda>i. i) True, Send ''a@b.c'' 1100000 (\<lambda>i. 0) True] Map.empty))
     = Mismatch"
proof -
  let ?evs = "[Send ''a@b.c'' 1000000 (\<lambda>i. i) True, Send ''a@b.c'' 1100000 (\<lambda>i. 0) True]"
  have a: "fst (otp_verify ''a@b.c'' ''000000'' 1200000 (run default_config ?evs Map.empty)) = VerifyOk"
    by code_simp
  have b: "fst (otp_verify ''a@b.c'' ''012345'' 1200000 (run default_config ?evs Map.empty)) = Mismatch"
    by code_simp
  from one_active_code [OF a a] a b show ?thesis by blast
qed

text \<open>
  The Apps Script backend accepts every code of the last ten minutes: after two
  calls of \<^verbatim>\<open>sendOTP\<close> for one address both codes are valid at the same time.
\<close>

theorem apps_script_two_codes_valid:
  "fst (snd (sendOTP (Some ''a@b.c'') 0 1000000 True (Some [HeaderRow])))
     = Some [HeaderRow, OtpRow ''a@b.c'' 100000 1000000] \<and>
   fst (snd (sendOTP (Some ''a@b.c'') 1 1001000 True (Some [HeaderRow, OtpRow ''a@b.c'' 100000 1000000])))
     = Some [HeaderRow, OtpRow ''a@b.c'' 100000 1000000, OtpRow ''a@b.c'' 100001 1001000] \<and>
   verifyOTP (Some ''a@b.c'') (Some ''100000'') 1100000
     (Some [HeaderRow, OtpRow ''a@b.c'' 100000 1000000, OtpRow ''a@b.c'' 100001 1001000]) = OtpValid \<and>
   verifyOTP (Some ''a@b.c'') (Some ''100001'') 1100000
     (Some [HeaderRow, OtpRow ''a@b.c'' 100000 1000000, OtpRow ''a@b.c'' 100001 1001000]) = OtpValid"
  by (simp add: sendOTP_def sendOTP_code_def verifyOTP_def decimal_examples numeral_2_eq_2)

subsection \<open>What a verify request changes\<close>

text \<open>
  Claim C7. A verify request that fails (with \<^verbatim>\<open>email and otp required\<close>,
  \<^verbatim>\<open>OTP not found\<close>, \<^verbatim>\<open>OTP expired\<close> or \<^verbatim>\<open>Invalid OTP\<close>) returns the store it
  was given: no entry is created, cleared or updated.
\<close>

theorem verify_failure_keeps_store:
  "fst (otp_verify email otp now store) \<noteq> VerifyOk \<Longrightarrow>
   snd (otp_verify email otp now store) = store"
  by (rule otp_verify_not_ok)

theorem verify_failure_keeps_store_witness:
  "fst (otp_verify ''a@b.c'' ''999999'' 1500000
     [''a@b.c'' \<mapsto> \<lparr> code = Some ''042913'', expiresAt = 1600000, lastSentAt = 1000000,
                      windowStartAt = 1000000, sentCountInWindow = 1 \<rparr>]) = Mismatch \<and>
   snd (otp_verify ''a@b.c'' ''999999'' 1500000
     [''a@b.c'' \<mapsto> \<lparr> code = Some ''042913'', expiresAt = 1600000, lastSentAt = 1000000,
                      windowStartAt = 1000000, sentCountInWindow = 1 \<rparr>])
     = [''a@b.c'' \<mapsto> \<lparr> code = Some ''042913'', expiresAt = 1600000, lastSentAt = 1000000,
                        windowStartAt = 1000000, sentCountInWindow = 1 \<rparr>]"
proof -
  let ?store = "[''a@b.c'' \<mapsto> \<lparr> code = Some ''042913'', expiresAt = 1600000, lastSentAt = 1000000,
                      windowStartAt = 1000000, sentCountInWindow = 1 \<rparr>]"
  have r: "fst (otp_verify ''a@b.c'' ''999999'' 1500000 ?store) = Mismatch"
    by (simp add: otp_verify_def)
  then have "fst (otp_verify ''a@b.c'' ''999999'' 1500000 ?store) \<noteq> VerifyOk" by simp
  from verify_failure_keeps_store [OF this] r show ?thesis by (rule conjI [rotated])
qed

text \<open>
  Claim C8. A verify request that succeeds changes the store at the address only,
  and there only the code, which it clears: the expiry, the time of the last
  issuance, the start of the window and the count of the window stay as they were.
\<close>

theorem verify_success_clears_code_only:
  assumes "fst (otp_verify email otp now store) = VerifyOk"
  shows "\<exists>entry entry'. store email = Some entry \<and>
           snd (otp_verify email otp now store) = store(email \<mapsto> entry') \<and>
           code entry' = None \<and>
           expiresAt entry' = expiresAt entry \<and>
           lastSentAt entry' = lastSentAt entry \<and>
           windowStartAt entry' = windowStartAt entry \<and>
           sentCountInWindow entry' = sentCountInWindow entry"
proof -
  from otp_verify_ok [OF assms] obtain entry where
    "store email = Some entry"
    "otp_verify email otp now store = (VerifyOk, store(email \<mapsto> entry\<lparr> code := None \<rparr>))"
    by blast
  then show ?thesis by (intro exI [of _ entry] exI [of _ "entry\<lparr> code := None \<rparr>"]) simp
qed

theorem verify_success_clears_code_only_witness:
  "fst (otp_verify ''a@b.c'' ''042913'' 1500000
     [''a@b.c'' \<mapsto> \<lparr> code = Some ''042913'', expiresAt = 1600000, lastSentAt = 1000000,
                      windowStartAt = 1000000, sentCountInWindow = 1 \<rparr>]) = VerifyOk \<and>
   (\<exists>entry'. snd (otp_verify ''a@b.c'' ''042913'' 1500000
        [''a@b.c'' \<mapsto> \<lparr> code = Some ''042913'', expiresAt = 1600000, lastSentAt = 1000000,
                         windowStartAt = 1000000, sentCountInWindow = 1 \<rparr>])
        = [''a@b.c'' \<mapsto> entry'] \<and>
      code entry' = None \<and> expiresAt entry' = 1600000 \<and> lastSentAt entry' = 1000000 \<and>
      windowStartAt entry' = 1000000 \<and> sentCountInWindow entry' = 1)"
proof -
  let ?store = "[''a@b.c'' \<mapsto> \<lparr> code = Some ''042913'', expiresAt = 1600000, lastSentAt = 1000000,
                      windowStartAt = 1000000, sentCountInWindow = 1 \<rparr>]"
  have r: "fst (otp_verify ''a@b.c'' ''042913'' 1500000 ?store) = VerifyOk"
    by (simp add: otp_verify_def)
  from verify_success_clears_code_only [OF r] obtain entry entry' where
    "?store ''a@b.c'' = Some entry"
    "snd (otp_verify ''a@b.c'' ''042913'' 1500000 ?store) = ?store(''a@b.c'' \<mapsto> entry')"
    "code entry' = None" "expiresAt entry' = expiresAt entry" "lastSentAt entry' = lastSentAt entry"
    "windowStartAt entry' = windowStartAt entry" "sentCountInWindow entry' = sentCountInWindow entry"
    by blast
  then have "snd (otp_verify ''a@b.c'' ''042913'' 1500000 ?store) = [''a@b.c'' \<mapsto> entry'] \<and>
      code entry' = None \<and> expiresAt entry' = 1600000 \<and> lastSentAt entry' = 1000000 \<and>
      windowStartAt entry' = 1000000 \<and> sentCountInWindow entry' = 1"
    by auto
  with r show ?thesis by blast
qed

section \<open>Registration\<close>

text \<open>
  Claim C9, for the Express server with \<^verbatim>\<open>SPREADSHEET_ID\<close> set. The handler
  answers \<^verbatim>\<open>email required\<close> exactly when the body has no \<^verbatim>\<open>email\<close> or an empty
  one, and then leaves the sheet alone. Otherwise it appends one row, or answers
  \<^verbatim>\<open>Failed to save registration\<close> when the spreadsheet call throws. The row is the
  timestamp, the values of nineteen named fields as they came (empty when absent)
  and the JSON text of the whole body.
\<close>

theorem register_requires_email:
  assumes "spreadsheetId = Some sid" and "sid \<noteq> []"
  shows "(fst (api_register spreadsheetId stringify timestamp store_ok body rows) = EmailRequired
            \<longleftrightarrow> map_of body ''email'' = None \<or> map_of body ''email'' = Some []) \<and>
         (fst (api_register spreadsheetId stringify timestamp store_ok body rows) = EmailRequired
            \<longrightarrow> snd (api_register spreadsheetId stringify timestamp store_ok body rows) = rows) \<and>
         (fst (api_register spreadsheetId stringify timestamp store_ok body rows) \<noteq> EmailRequired
            \<longrightarrow> api_register spreadsheetId stringify timestamp store_ok body rows =
                  (if store_ok then (RegisterOk, rows @ [register_row stringify timestamp body])
                   else (SaveFailed, rows))) \<and>
         register_row stringify timestamp body =
           timestamp #
           map (field body)
             [''email'', ''fullName'', ''secondaryEmail'', ''phone'', ''organization'', ''city'',
              ''startupName'', ''website'', ''industry'', ''socialImpact'', ''iitkgpAffiliation'',
              ''aiMlCore'', ''tis'', ''problem'', ''solution'', ''market'', ''traction'', ''revenue'',
              ''extra''] @
           [stringify body] \<and>
         (\<forall>k v. map_of body k = Some v \<longrightarrow> field body k = v)"
  using assms by (simp add: api_register_def register_row_def field_present)

theorem register_requires_email_witness:
  "fst (api_register (Some ''sheet-1'') (\<lambda>b. ''{}'') ''2025-01-01T00:00:00.000Z'' True
          [(''fullName'', ''Ada'')] []) = EmailRequired \<and>
   snd (api_register (Some ''sheet-1'') (\<lambda>b. ''{}'') ''2025-01-01T00:00:00.000Z'' True
          [(''fullName'', ''Ada'')] []) = [] \<and>
   api_register (Some ''sheet-1'') (\<lambda>b. ''{}'') ''2025-01-01T00:00:00.000Z'' True
          [(''email'', ''a@b.c''), (''fullName'', ''Ada'')] [] =
     (RegisterOk, [register_row (\<lambda>b. ''{}'') ''2025-01-01T00:00:00.000Z''
                     [(''email'', ''a@b.c''), (''fullName'', ''Ada'')]]) \<and>
   field [(''email'', ''a@b.c''), (''fullName'', ''Ada'')] ''email'' = ''a@b.c''"
proof -
  have sid: "Some ''sheet-1'' = Some ''sheet-1''" "''sheet-1'' \<noteq> []" by simp_all
  note a = register_requires_email [OF sid, of "\<lambda>b. ''{}''" "''2025-01-01T00:00:00.000Z''" True
      "[(''fullName'', ''Ada'')]" "[]"]
  note b = register_requires_email [OF sid, of "\<lambda>b. ''{}''" "''2025-01-01T00:00:00.000Z''" True
      "[(''email'', ''a@b.c''), (''fullName'', ''Ada'')]" "[]"]
  from a have "fst (api_register (Some ''sheet-1'') (\<lambda>b. ''{}'') ''2025-01-01T00:00:00.000Z'' True
          [(''fullName'', ''Ada'')] []) = EmailRequired" by simp
  moreover from a this have "snd (api_register (Some ''sheet-1'') (\<lambda>b. ''{}'') ''2025-01-01T00:00:00.000Z'' True
          [(''fullName'', ''Ada'')] []) = []" by blast
  moreover from b have "fst (api_register (Some ''sheet-1'') (\<lambda>b. ''{}'') ''2025-01-01T00:00:00.000Z'' True
          [(''email'', ''a@b.c''), (''fullName'', ''Ada'')] []) \<noteq> EmailRequired" by simp
  with b have "api_register (Some ''sheet-1'') (\<lambda>b. ''{}'') ''2025-01-01T00:00:00.000Z'' True
          [(''email'', ''a@b.c''), (''fullName'', ''Ada'')] [] =
     (RegisterOk, [register_row (\<lambda>b. ''{}'') ''2025-01-01T00:00:00.000Z''
                     [(''email'', ''a@b.c''), (''fullName'', ''Ada'')]])" by simp
  moreover from b have "field [(''email'', ''a@b.c''), (''fullName'', ''Ada'')] ''email'' = ''a@b.c''"
    by simp
  ultimately show ?thesis by blast
qed

text \<open>
  Without \<^verbatim>\<open>SPREADSHEET_ID\<close> the Express handler answers
  \<^verbatim>\<open>SPREADSHEET_ID not configured\<close> whatever the body holds, and the Apps Script
  \<^verbatim>\<open>register\<close> appends a row and answers \<^verbatim>\<open>OK\<close> for a request without an address.
\<close>

theorem register_without_email:
  "fst (api_register None (\<lambda>b. ''{}'') ''2025-01-01T00:00:00.000Z'' True [] []) = NotConfigured \<and>
   fst (register Map.empty 0 True None) = AnswerOk \<and>
   snd (register Map.empty 0 True None) = Some [register_headers, rowData Map.empty 0]"
  by (simp add: api_register_def register_def)

section \<open>A failing notifier\<close>

text \<open>
  Claim C10. When a send request is answered \<^verbatim>\<open>Failed to send OTP\<close>
  (\<^verbatim>\<open>sendEmail\<close> threw), the store already holds the new code for the address,
  with the count of the window raised by one and the time of the last issuance set
  to \<open>now\<close>, and a send request for the address less than the minimum resend
  interval after \<open>now\<close> is refused, as too many or as too soon. When the
  configured code length is at least 1, a verify request with the code not later
  than the expiry succeeds.
\<close>

theorem notifier_failure_keeps_mutation:
  assumes "fst (otp_send cfg email now rnd mail_ok store) = SendFailed"
    and "t \<le> now + otpTtlSeconds cfg * 1000"
    and "t' - now < minResendIntervalSeconds cfg * 1000"
  shows "let c = generateOtp (otpLength cfg) rnd;
             start = send_entry cfg email now store;
             store' = fst (snd (otp_send cfg email now rnd mail_ok store))
         in (\<exists>entry. store' email = Some entry \<and>
               code entry = Some c \<and>
               sentCountInWindow entry = sentCountInWindow start + 1 \<and>
               lastSentAt entry = now) \<and>
            (0 < otpLength cfg \<longrightarrow> fst (otp_verify email c t store') = VerifyOk) \<and>
            (fst (otp_send cfg email t' rnd' mail_ok' store') = RateLimited \<or>
             fst (otp_send cfg email t' rnd' mail_ok' store') = TooSoon)"
proof -
  define c where "c = generateOtp (otpLength cfg) rnd"
  define entry where "entry = (send_entry cfg email now store)
      \<lparr> code := Some c, expiresAt := now + otpTtlSeconds cfg * 1000, lastSentAt := now,
        sentCountInWindow := sentCountInWindow (send_entry cfg email now store) + 1 \<rparr>"
  define store' where "store' = fst (snd (otp_send cfg email now rnd mail_ok store))"
  from assms(1) have "snd (snd (otp_send cfg email now rnd mail_ok store)) \<noteq> None"
    using otp_send_stored_iff [of cfg email now rnd mail_ok store] by blast
  from otp_send_stored [OF this]
  have valid: "email \<noteq> []" "email_regex email" and st: "store' email = Some entry"
    by (simp_all add: store'_def entry_def c_def)
  have "fst (otp_verify email c t store') = VerifyOk" if "0 < otpLength cfg"
  proof -
    from that have "c \<noteq> []" by (simp add: c_def generateOtp_nonempty)
    with st valid assms(2) show ?thesis
      by (simp add: otp_verify_active entry_def)
  qed
  moreover from st valid assms(3)
  have "fst (otp_send cfg email t' rnd' mail_ok' store') = RateLimited \<or>
        fst (otp_send cfg email t' rnd' mail_ok' store') = TooSoon"
    by (simp add: otp_send_def send_entry_def Let_def entry_def)
  moreover from st have "\<exists>e. store' email = Some e \<and> code e = Some c \<and>
      sentCountInWindow e = sentCountInWindow (send_entry cfg email now store) + 1 \<and> lastSentAt e = now"
    by (simp add: entry_def)
  ultimately show ?thesis by (simp add: Let_def c_def store'_def)
qed

theorem notifier_failure_keeps_mutation_witness:
  "fst (otp_send default_config ''a@b.c'' 1000000 ((!) [0, 4, 2, 9, 1, 3]) False Map.empty) = SendFailed \<and>
   generateOtp (otpLength default_config) ((!) [0, 4, 2, 9, 1, 3]) = ''042913'' \<and>
   (\<exists>entry. fst (snd (otp_send default_config ''a@b.c'' 1000000 ((!) [0, 4, 2, 9, 1, 3]) False Map.empty))
        ''a@b.c'' = Some entry \<and>
      code entry = Some ''042913'' \<and> sentCountInWindow entry = 1 \<and> lastSentAt entry = 1000000) \<and>
   fst (otp_verify ''a@b.c'' ''042913'' 1500000
     (fst (snd (otp_send default_config ''a@b.c'' 1000000 ((!) [0, 4, 2, 9, 1, 3]) False Map.empty))))
     = VerifyOk \<and>
   (fst (otp_send default_config ''a@b.c'' 1030000 (\<lambda>i. 0) True
     (fst (snd (otp_send default_config ''a@b.c'' 1000000 ((!) [0, 4, 2, 9, 1, 3]) False Map.empty))))
     = RateLimited \<or>
    fst (otp_send default_config ''a@b.c'' 1030000 (\<lambda>i. 0) True
     (fst (snd (otp_send default_config ''a@b.c'' 1000000 ((!) [0, 4, 2, 9, 1, 3]) False Map.empty))))
     = TooSoon)"
proof -
  let ?rnd = "(!) [0, 4, 2, 9, 1, 3 :: nat]"
  have a: "fst (otp_send default_config ''a@b.c'' 1000000 ?rnd False Map.empty) = SendFailed"
    by code_simp
  have b: "0 < otpLength default_config"
    and c: "1500000 \<le> 1000000 + otpTtlSeconds default_config * 1000"
    and d: "1030000 - 1000000 < minResendIntervalSeconds default_config * 1000"
    by (simp_all add: default_config_def)
  have e: "generateOtp (otpLength default_config) ?rnd = ''042913''"
    by code_simp
  have f: "sentCountInWindow (send_entry default_config ''a@b.c'' 1000000 Map.empty) = 0"
    by (simp add: send_entry_def reset_window_def fresh_entry_def default_config_def)
  from notifier_failure_keeps_mutation [OF a c d, of "\<lambda>i. 0" True] a b e show ?thesis
    unfolding Let_def e f by simp
qed

text \<open>
  With a configured length of 0, which the server accepts, the code that is
  generated and stored is the empty string, and a verify request that presents it
  is answered \<^verbatim>\<open>email and otp required\<close>: the stored code cannot be verified.
\<close>

theorem notifier_failure_empty_code:
  "fst (otp_send (default_config\<lparr> otpLength := 0 \<rparr>) ''a@b.c'' 1000000 (\<lambda>i. 0) False Map.empty)
     = SendFailed \<and>
   generateOtp (otpLength (default_config\<lparr> otpLength := 0 \<rparr>)) (\<lambda>i. 0) = [] \<and>
   map_option code
     (fst (snd (otp_send (default_config\<lparr> otpLength := 0 \<rparr>) ''a@b.c'' 1000000 (\<lambda>i. 0) False
        Map.empty)) ''a@b.c'') = Some (Some []) \<and>
   fst (otp_verify ''a@b.c'' [] 1500000
     (fst (snd (otp_send (default_config\<lparr> otpLength := 0 \<rparr>) ''a@b.c'' 1000000 (\<lambda>i. 0) False
        Map.empty)))) = InvalidInput"
  by code_simp

end
